theory Spec2Isabelle
  imports Main "HOL-Library.Word"
begin

unbundle bit_operations_syntax

section \<open>Data model of the program manager\<close>

text \<open>
  The firmware is C++ for Arduino boards. Bytes are \<open>8 word\<close>, socket addresses
  (\<open>socket_addr_t\<close>) are \<open>16 word\<close>. A C array is a list whose length is the number of
  elements the array really holds; the element count the code keeps beside it
  (\<open>num_outputs\<close>, \<open>num_programs\<close>, \<open>num_sockets\<close>) is a separate field, as in the source.
  Reading an element the array does not hold, and dereferencing a null pointer, are
  undefined in C: the model stops there with a \<open>fault\<close>.
\<close>

type_synonym byte = "8 word"
type_synonym socket_addr_t = "16 word"

datatype fault = NullDeref | OutOfBounds

definition array_read :: "'a list \<Rightarrow> nat \<Rightarrow> fault + 'a" where
  "array_read xs i = (if i < length xs then Inr (xs ! i) else Inl OutOfBounds)"

text \<open>\<open>output_hdr_t\<close>: the two bytes that head every output message and descriptor.\<close>

record output_hdr =
  hdr_type :: byte
  hdr_output :: byte

text \<open>\<open>msg_program_t\<close>: \<open>hdr\<close>, the program \<open>type\<close> and the program's own parameters.\<close>

record msg_program =
  hdr :: output_hdr
  type :: byte
  prog_values :: "byte list"

text \<open>
  \<open>program_tracker_t\<close>. The field \<open>program\<close> is a pointer to an entry of the table
  \<open>functions\<close> (here \<open>program_functions\<close>): the model keeps the entry's index. \<open>state\<close> is the \<open>void *\<close> to the
  program's own state, \<open>None\<close> when it is null.
\<close>

record 'st program_tracker =
  program :: nat
  flags :: byte
  state :: "'st option"

text \<open>
  The calls that leave the two classes, in the order they are made. Pointers to trackers
  and to output descriptors are named by the slot they come from (\<open>None\<close> is a null
  pointer); buffers are passed with their length argument, as in the calls.
\<close>

datatype 'obj event =
    Setup_call nat msg_program nat
  | Program_call nat "nat option" 'obj "nat option"
  | Free_state nat
  | Free_tracker nat
  | Serial_write "byte list" nat
  | Serial_println string
  | Delay_ms "32 word"
  | Send_msg nat socket_addr_t "byte list" nat

text \<open>
  \<open>hmtl_program_t\<close>: a program type with its two function pointers. The bodies of the
  programs are outside these files, so they are parameters: \<open>setup_fn\<close> (the member \<open>setup\<close>) gives the tracker as
  the call leaves it, \<open>program_fn\<close> (the member \<open>program\<close>) gives its boolean result and
  what it leaves behind its three pointer arguments.
\<close>

record ('st, 'out, 'obj) hmtl_program =
  ptype :: byte
  program_fn :: "'out option \<Rightarrow> 'obj \<Rightarrow> 'st program_tracker option
                 \<Rightarrow> bool \<times> 'out option \<times> 'obj \<times> 'st program_tracker option"
  setup_fn :: "msg_program \<Rightarrow> 'st program_tracker \<Rightarrow> 'st program_tracker"

text \<open>The members of \<open>ProgramManager\<close>, and the trace of calls made so far.\<close>

record ('st, 'out, 'obj) ProgramManager =
  outputs :: "'out option list"
  trackers :: "'st program_tracker option list"
  objects :: "'obj list"
  num_outputs :: byte
  program_functions :: "('st, 'out, 'obj) hmtl_program list"
  num_programs :: byte
  trace :: "'obj event list"

text \<open>
  The macros of \<open>HMTLProtocol.h\<close>, \<open>HMTLPrograms.h\<close> and the socket library that the two
  classes use. Their values are not in these files, so they are taken as parameters;
  \<open>INT_BITS\<close> is the width of the platform's \<open>int\<close>.
\<close>

record hmtl_defs =
  HMTL_MSG_VERSION :: byte
  SOCKET_ADDR_ANY :: socket_addr_t
  MSG_FLAG_ACK :: byte
  MSG_TYPE_OUTPUT :: byte
  MSG_TYPE_POLL :: byte
  MSG_TYPE_SET_ADDR :: byte
  MSG_TYPE_SENSOR :: byte
  HMTL_OUTPUT_PROGRAM :: byte
  HMTL_PROGRAM_NONE :: byte
  PROGRAM_TRACKER_DONE :: byte
  PROGRAM_SENSOR_DATA :: byte
  OBJECT_TYPE :: byte
  HMTL_ACK :: string
  INT_BITS :: nat

section \<open>ProgramManager\<close>

definition log_event ::
  "'obj event \<Rightarrow> ('st, 'out, 'obj) ProgramManager \<Rightarrow> ('st, 'out, 'obj) ProgramManager" where
  "log_event e pm = pm\<lparr>trace := trace pm @ [e]\<rparr>"

text \<open>
  \<open>lookup_function\<close>: the loop \<open>for (byte i = 0; i < num_programs; i++)\<close> over the indices
  \<open>0 .. num_programs - 1\<close>; the result is the pointer \<open>&functions[i]\<close> of the first entry of
  the requested type, or null.
\<close>

fun lookup_loop ::
  "('st, 'out, 'obj) hmtl_program list \<Rightarrow> byte \<Rightarrow> nat list \<Rightarrow> fault + nat option" where
  "lookup_loop fs ident [] = Inr None"
| "lookup_loop fs ident (i # rest) =
     (case array_read fs i of
        Inl f \<Rightarrow> Inl f
      | Inr p \<Rightarrow> if ptype p = ident then Inr (Some i) else lookup_loop fs ident rest)"

definition lookup_function ::
  "('st, 'out, 'obj) ProgramManager \<Rightarrow> byte \<Rightarrow> fault + nat option" where
  "lookup_function pm ident =
     lookup_loop (program_functions pm) ident [0..<unat (num_programs pm)]"

text \<open>
  \<open>free_tracker\<close>: frees the tracker's state when the pointer is not null, frees the
  tracker, and clears the slot in every case.
\<close>

definition free_tracker ::
  "('st, 'out, 'obj) ProgramManager \<Rightarrow> nat \<Rightarrow> fault + ('st, 'out, 'obj) ProgramManager" where
  "free_tracker pm index =
     (case array_read (trackers pm) index of
        Inl f \<Rightarrow> Inl f
      | Inr None \<Rightarrow> Inr (pm\<lparr>trackers := (trackers pm)[index := None]\<rparr>)
      | Inr (Some tracker) \<Rightarrow>
          (let pm1 = (if state tracker \<noteq> None then log_event (Free_state index) pm else pm);
               pm2 = log_event (Free_tracker index) pm1
           in Inr (pm2\<lparr>trackers := (trackers pm2)[index := None]\<rparr>)))"

text \<open>
  \<open>handle_msg\<close>. \<open>fresh\<close> is what \<open>malloc\<close> returns if the function calls it: \<open>None\<close> when
  it returns null, else the block with the content it happens to hold. The checks are in
  the order of the source: the program type, then \<open>msg->hdr.output > num_outputs\<close>, then
  the output descriptor.
\<close>

definition handle_msg ::
  "hmtl_defs \<Rightarrow> 'st program_tracker option \<Rightarrow> ('st, 'out, 'obj) ProgramManager
     \<Rightarrow> msg_program \<Rightarrow> fault + (bool \<times> ('st, 'out, 'obj) ProgramManager)" where
  "handle_msg D fresh pm msg =
     (case lookup_function pm (type msg) of
        Inl f \<Rightarrow> Inl f
      | Inr None \<Rightarrow> Inr (False, pm)
      | Inr (Some k) \<Rightarrow>
          if unat (hdr_output (hdr msg)) > unat (num_outputs pm) then Inr (False, pm)
          else
            (case array_read (outputs pm) (unat (hdr_output (hdr msg))) of
               Inl f \<Rightarrow> Inl f
             | Inr None \<Rightarrow> Inr (False, pm)
             | Inr (Some out) \<Rightarrow>
                 (case array_read (trackers pm) (unat (hdr_output (hdr msg))) of
                    Inl f \<Rightarrow> Inl f
                  | Inr tracker \<Rightarrow>
                      if ptype (program_functions pm ! k) = HMTL_PROGRAM_NONE D then
                        (case free_tracker pm (unat (hdr_output (hdr msg))) of
                           Inl f \<Rightarrow> Inl f
                         | Inr pm' \<Rightarrow> Inr (True, pm'))
                      else
                        (case (case tracker of
                                 Some t \<Rightarrow>
                                   Inr (t, if state t \<noteq> None
                                           then log_event (Free_state (unat (hdr_output (hdr msg)))) pm
                                           else pm)
                               | None \<Rightarrow>
                                   (case fresh of
                                      None \<Rightarrow> Inl NullDeref
                                    | Some t \<Rightarrow> Inr (t, pm))) of
                           Inl f \<Rightarrow> Inl f
                         | Inr (t, pm1) \<Rightarrow>
                             (let t' = t\<lparr>program := k, flags := 0\<rparr>;
                                  pm2 = log_event (Setup_call k msg (unat (hdr_output (hdr msg)))) pm1
                              in Inr (True,
                                   pm2\<lparr>trackers := (trackers pm2)
                                     [unat (hdr_output (hdr msg)) :=
                                        Some (setup_fn (program_functions pm ! k) msg t')]\<rparr>))))))"

text \<open>
  \<open>run\<close>. A program function works behind the pointers it is given: a null pointer stays
  null, and behind any other the callee's result is found afterwards.
\<close>

definition pointee :: "'a option \<Rightarrow> 'a option \<Rightarrow> 'a option" where
  "pointee p after =
     (case p of
        None \<Rightarrow> None
      | Some v \<Rightarrow> (case after of None \<Rightarrow> Some v | Some v' \<Rightarrow> Some v'))"

text \<open>The body of the loop of \<open>run\<close> for output \<open>i\<close>; the result is whether the program reported a change.\<close>

definition run_output ::
  "hmtl_defs \<Rightarrow> ('st, 'out, 'obj) ProgramManager \<Rightarrow> nat
     \<Rightarrow> fault + (bool \<times> ('st, 'out, 'obj) ProgramManager)" where
  "run_output D pm i =
     (case array_read (trackers pm) i of
        Inl f \<Rightarrow> Inl f
      | Inr None \<Rightarrow> Inr (False, pm)
      | Inr (Some tracker) \<Rightarrow>
          if flags tracker AND PROGRAM_TRACKER_DONE D \<noteq> 0 then
            (case free_tracker pm i of
               Inl f \<Rightarrow> Inl f
             | Inr pm' \<Rightarrow> Inr (False, pm'))
          else
            (case array_read (program_functions pm) (program tracker) of
               Inl f \<Rightarrow> Inl f
             | Inr p \<Rightarrow>
                 (case array_read (outputs pm) i of
                    Inl f \<Rightarrow> Inl f
                  | Inr out \<Rightarrow>
                      (case array_read (objects pm) i of
                         Inl f \<Rightarrow> Inl f
                       | Inr obj \<Rightarrow>
                           (case program_fn p out obj (Some tracker) of
                              (changed, out', obj', tracker') \<Rightarrow>
                                (let pm1 = log_event
                                       (Program_call (program tracker)
                                          (if out = None then None else Some i) obj (Some i)) pm
                                 in Inr (changed,
                                      pm1\<lparr>outputs := (outputs pm1)[i := pointee out out'],
                                          objects := (objects pm1)[i := obj'],
                                          trackers := (trackers pm1)
                                            [i := pointee (Some tracker) tracker']\<rparr>)))))))"

text \<open>The loop \<open>for (byte i = 0; i < num_outputs; i++)\<close>, with the flag \<open>updated\<close>.\<close>

fun run_loop ::
  "hmtl_defs \<Rightarrow> nat list \<Rightarrow> bool \<Rightarrow> ('st, 'out, 'obj) ProgramManager
     \<Rightarrow> fault + (bool \<times> ('st, 'out, 'obj) ProgramManager)" where
  "run_loop D [] updated pm = Inr (updated, pm)"
| "run_loop D (i # rest) updated pm =
     (case run_output D pm i of
        Inl f \<Rightarrow> Inl f
      | Inr (changed, pm') \<Rightarrow> run_loop D rest (if changed then True else updated) pm')"

definition run ::
  "hmtl_defs \<Rightarrow> ('st, 'out, 'obj) ProgramManager
     \<Rightarrow> fault + (bool \<times> ('st, 'out, 'obj) ProgramManager)" where
  "run D pm = run_loop D [0..<unat (num_outputs pm)] False pm"

text \<open>
  \<open>run_program\<close>: the result of \<open>lookup_function\<close> is used as it comes; the call passes a null
  output and a null tracker, and the function returns \<open>false\<close>.
\<close>

definition run_program ::
  "('st, 'out, 'obj) ProgramManager \<Rightarrow> byte \<Rightarrow> 'obj
     \<Rightarrow> fault + (bool \<times> ('st, 'out, 'obj) ProgramManager)" where
  "run_program pm ty arg =
     (case lookup_function pm ty of
        Inl f \<Rightarrow> Inl f
      | Inr None \<Rightarrow> Inl NullDeref
      | Inr (Some k) \<Rightarrow>
          (case program_fn (program_functions pm ! k) None arg None of
             (changed, rest) \<Rightarrow> Inr (False, log_event (Program_call k None arg None) pm)))"

section \<open>Data model of the message handler\<close>

text \<open>
  Modelled from the spec: the class \<open>Socket\<close> of the socket library, which is not in
  these files (the spec's transport, with its buffer capacity and source address). The
  model keeps the members that \<open>MessageHandler\<close> reads and writes. \<open>send_buffer\<close> is the
  memory behind the pointer, as long as the buffer really is.
\<close>

record socket =
  send_buffer :: "byte list"
  send_data_size :: "16 word"
  recvLimit :: "16 word"
  sourceAddress :: socket_addr_t

text \<open>
  Modelled from the spec: \<open>config_hdr_t\<close> and \<open>msg_set_addr_t\<close>, declared in headers that
  are not in these files (the spec's node configuration with its device identifier, and
  the set-address payload).
\<close>

record config_hdr =
  device_id :: "16 word"
  config_address :: socket_addr_t

record msg_set_addr =
  sa_device_id :: "16 word"
  sa_address :: socket_addr_t

text \<open>
  Modelled from the spec: \<open>msg_hdr_t\<close> (the envelope \<open>version:u8, dest_address:u16, type:u8,
  flags:u8, length:u16\<close>), followed in memory by its payload. \<open>msg_bytes\<close> is the memory at
  \<open>(byte *)msg_hdr\<close>. The payload is read through casts of \<open>msg_hdr + 1\<close>: \<open>as_program\<close> is
  what \<open>(msg_program_t *)(msg_hdr + 1)\<close> reads (its \<open>hdr\<close> is the \<open>output_hdr_t\<close> at the same
  place), \<open>as_set_addr\<close> what \<open>(msg_set_addr_t *)(msg_hdr + 1)\<close> reads, and \<open>sensor_data\<close> the
  pointers that \<open>hmtl_next_sensor\<close> returns one after the other until it returns null.
\<close>

record 'obj msg_hdr =
  msg_version :: byte
  msg_address :: socket_addr_t
  msg_type :: byte
  msg_flags :: byte
  msg_length :: "16 word"
  msg_bytes :: "byte list"
  as_program :: msg_program
  as_set_addr :: msg_set_addr
  sensor_data :: "'obj list"

text \<open>
  The functions of the protocol and socket libraries that \<open>process_msg\<close> calls and whose
  results it uses; their bodies are not in these files. \<open>hmtl_handle_output_msg\<close> gives the
  outputs and objects as it leaves them, \<open>hmtl_poll_fmt\<close> the send buffer as it leaves it
  and the length it returns.
\<close>

record ('out, 'obj) hmtl_lib =
  hmtl_handle_output_msg ::
    "'obj msg_hdr \<Rightarrow> byte \<Rightarrow> 'out option list \<Rightarrow> 'obj list \<Rightarrow> 'out option list \<times> 'obj list"
  hmtl_poll_fmt ::
    "byte list \<Rightarrow> 16 word \<Rightarrow> socket_addr_t \<Rightarrow> byte \<Rightarrow> byte \<Rightarrow> config_hdr
       \<Rightarrow> 'out option list \<Rightarrow> 16 word \<Rightarrow> byte list \<times> 16 word"
  sourceFromData :: "socket \<Rightarrow> 'obj msg_hdr \<Rightarrow> socket_addr_t"

text \<open>
  The members of \<open>MessageHandler\<close>. \<open>manager\<close> is the one program manager the handler
  points to. A pointer to a socket is the index of its slot in \<open>sockets\<close>.
\<close>

record ('st, 'out, 'obj) MessageHandler =
  address :: socket_addr_t
  manager :: "('st, 'out, 'obj) ProgramManager"
  sockets :: "socket option list"
  num_sockets :: byte
  serial_msg_offset :: nat
  last_serial_ms :: "32 word"
  last_ready_ms :: "32 word"

definition log_io ::
  "'obj event \<Rightarrow> ('st, 'out, 'obj) MessageHandler \<Rightarrow> ('st, 'out, 'obj) MessageHandler" where
  "log_io e h = h\<lparr>manager := log_event e (manager h)\<rparr>"

text \<open>
  Following a socket pointer gives the slot and the socket in it; a null pointer, and a
  slot that holds no socket, fault.
\<close>

definition get_socket ::
  "('st, 'out, 'obj) MessageHandler \<Rightarrow> nat option \<Rightarrow> fault + (nat \<times> socket)" where
  "get_socket h p =
     (case p of
        None \<Rightarrow> Inl NullDeref
      | Some i \<Rightarrow>
          (case array_read (sockets h) i of
             Inl f \<Rightarrow> Inl f
           | Inr None \<Rightarrow> Inl NullDeref
           | Inr (Some s) \<Rightarrow> Inr (i, s)))"

definition put_socket ::
  "('st, 'out, 'obj) MessageHandler \<Rightarrow> nat \<Rightarrow> socket \<Rightarrow> ('st, 'out, 'obj) MessageHandler" where
  "put_socket h i s = h\<lparr>sockets := (sockets h)[i := Some s]\<rparr>"

text \<open>\<open>memcpy(dst, src, n)\<close>: it faults when either buffer holds fewer than \<open>n\<close> bytes.\<close>

definition memcpy :: "byte list \<Rightarrow> byte list \<Rightarrow> nat \<Rightarrow> fault + byte list" where
  "memcpy dst src n =
     (if n \<le> length dst \<and> n \<le> length src then Inr (take n src @ drop n dst)
      else Inl OutOfBounds)"

text \<open>
  The argument of \<open>delay\<close> for a broadcast poll: \<open>int delayMs = address * 2\<close>, an \<open>int\<close> of
  \<open>INT_BITS\<close> bits in two's complement, converted to the \<open>unsigned long\<close> (32 bits) that
  \<open>delay\<close> takes.
\<close>

definition c_int :: "nat \<Rightarrow> int \<Rightarrow> int" where
  "c_int w x = (let m = x mod 2 ^ w in if m < 2 ^ (w - 1) then m else m - 2 ^ w)"

definition delayMs :: "hmtl_defs \<Rightarrow> socket_addr_t \<Rightarrow> int" where
  "delayMs D a = c_int (INT_BITS D) (uint a * 2)"

definition delay_arg :: "hmtl_defs \<Rightarrow> socket_addr_t \<Rightarrow> 32 word" where
  "delay_arg D a = word_of_int (delayMs D a)"

section \<open>MessageHandler\<close>

text \<open>
  The loop of the sensor case: \<open>run_program(PROGRAM_SENSOR_DATA, sensor)\<close> for every
  sensor record of the message.
\<close>

fun run_sensors ::
  "hmtl_defs \<Rightarrow> ('st, 'out, 'obj) ProgramManager \<Rightarrow> 'obj list
     \<Rightarrow> fault + ('st, 'out, 'obj) ProgramManager" where
  "run_sensors D pm [] = Inr pm"
| "run_sensors D pm (sensor # rest) =
     (case run_program pm (PROGRAM_SENSOR_DATA D) sensor of
        Inl f \<Rightarrow> Inl f
      | Inr (r, pm') \<Rightarrow> run_sensors D pm' rest)"

text \<open>The case \<open>MSG_TYPE_POLL\<close> of \<open>process_msg\<close>.\<close>

definition poll_response ::
  "hmtl_defs \<Rightarrow> ('out, 'obj) hmtl_lib \<Rightarrow> ('st, 'out, 'obj) MessageHandler \<Rightarrow> 'obj msg_hdr
     \<Rightarrow> nat option \<Rightarrow> nat option \<Rightarrow> config_hdr
     \<Rightarrow> fault + (bool \<times> ('st, 'out, 'obj) MessageHandler)" where
  "poll_response D L h m src serial_socket config =
     (case (case src of
              Some i \<Rightarrow>
                (case get_socket h src of
                   Inl f \<Rightarrow> Inl f
                 | Inr (j, s) \<Rightarrow> Inr (sourceFromData L s m, src))
            | None \<Rightarrow> Inr (0, serial_socket)) of
        Inl f \<Rightarrow> Inl f
      | Inr (source_address, sock) \<Rightarrow>
          (case get_socket h sock of
             Inl f \<Rightarrow> Inl f
           | Inr (j, s) \<Rightarrow>
               (case hmtl_poll_fmt L (send_buffer s) (send_data_size s) source_address
                       (msg_flags m) (OBJECT_TYPE D) config (outputs (manager h)) (recvLimit s) of
                  (buf, len) \<Rightarrow>
                    (let h1 = put_socket h j (s\<lparr>send_buffer := buf\<rparr>)
                     in (case src of
                           Some i \<Rightarrow>
                             (let h2 = (if msg_address m = SOCKET_ADDR_ANY D
                                        then log_io (Delay_ms (delay_arg D (address h1))) h1
                                        else h1)
                              in Inr (False, log_io (Send_msg i source_address buf (unat len)) h2))
                         | None \<Rightarrow> Inr (False, log_io (Serial_write buf (unat len)) h1))))))"

text \<open>The case \<open>MSG_TYPE_SET_ADDR\<close> of \<open>process_msg\<close>.\<close>

definition set_address ::
  "('st, 'out, 'obj) MessageHandler \<Rightarrow> 'obj msg_hdr \<Rightarrow> nat option \<Rightarrow> config_hdr
     \<Rightarrow> fault + (bool \<times> ('st, 'out, 'obj) MessageHandler)" where
  "set_address h m src config =
     (if sa_device_id (as_set_addr m) = 0 \<or> sa_device_id (as_set_addr m) = device_id config then
        (let h1 = h\<lparr>address := sa_address (as_set_addr m)\<rparr>
         in (case get_socket h1 src of
               Inl f \<Rightarrow> Inl f
             | Inr (j, s) \<Rightarrow> Inr (False, put_socket h1 j (s\<lparr>sourceAddress := address h1\<rparr>))))
      else Inr (False, h))"

text \<open>
  The \<open>switch (msg_hdr->type)\<close> of \<open>process_msg\<close>. The case labels are distinct constants;
  a type with no case leaves the switch, and the function returns \<open>false\<close>.
\<close>

definition dispatch_msg ::
  "hmtl_defs \<Rightarrow> ('out, 'obj) hmtl_lib \<Rightarrow> 'st program_tracker option
     \<Rightarrow> ('st, 'out, 'obj) MessageHandler \<Rightarrow> 'obj msg_hdr \<Rightarrow> nat option \<Rightarrow> nat option
     \<Rightarrow> config_hdr \<Rightarrow> fault + (bool \<times> ('st, 'out, 'obj) MessageHandler)" where
  "dispatch_msg D L fresh h m src serial_socket config =
     (if msg_type m = MSG_TYPE_OUTPUT D then
        (if hdr_type (hdr (as_program m)) = HMTL_OUTPUT_PROGRAM D then
           (case handle_msg D fresh (manager h) (as_program m) of
              Inl f \<Rightarrow> Inl f
            | Inr (r, pm') \<Rightarrow> Inr (True, h\<lparr>manager := pm'\<rparr>))
         else
           (case hmtl_handle_output_msg L m (num_outputs (manager h))
                   (outputs (manager h)) (objects (manager h)) of
              (outs, objs) \<Rightarrow>
                Inr (True, h\<lparr>manager := (manager h)\<lparr>outputs := outs, objects := objs\<rparr>\<rparr>)))
      else if msg_type m = MSG_TYPE_POLL D then poll_response D L h m src serial_socket config
      else if msg_type m = MSG_TYPE_SET_ADDR D then set_address h m src config
      else if msg_type m = MSG_TYPE_SENSOR D then
        (if msg_flags m AND MSG_FLAG_ACK D \<noteq> 0 then
           (case run_sensors D (manager h) (sensor_data m) of
              Inl f \<Rightarrow> Inl f
            | Inr pm' \<Rightarrow> Inr (False, h\<lparr>manager := pm'\<rparr>))
         else Inr (False, h))
      else Inr (False, h))"

text \<open>
  \<open>process_msg\<close>: the version check, the test that the message is for this device, the
  forwarding of an ack to serial, and the switch.
\<close>

definition process_msg ::
  "hmtl_defs \<Rightarrow> ('out, 'obj) hmtl_lib \<Rightarrow> 'st program_tracker option
     \<Rightarrow> ('st, 'out, 'obj) MessageHandler \<Rightarrow> 'obj msg_hdr \<Rightarrow> nat option \<Rightarrow> nat option
     \<Rightarrow> config_hdr \<Rightarrow> fault + (bool \<times> ('st, 'out, 'obj) MessageHandler)" where
  "process_msg D L fresh h m src serial_socket config =
     (if msg_version m \<noteq> HMTL_MSG_VERSION D then Inr (False, h)
      else if msg_address m = address h \<or> msg_address m = SOCKET_ADDR_ANY D then
        (if msg_flags m AND MSG_FLAG_ACK D \<noteq> 0 \<and> msg_address m \<noteq> SOCKET_ADDR_ANY D then
           (let h1 = log_io (Serial_write (msg_bytes m) (unat (msg_length m))) h
            in if msg_type m \<noteq> MSG_TYPE_SENSOR D then Inr (False, h1)
               else dispatch_msg D L fresh h1 m src serial_socket config)
         else dispatch_msg D L fresh h m src serial_socket config)
      else Inr (False, h))"

text \<open>\<open>check_and_forward\<close>, for the socket in slot \<open>i\<close>.\<close>

definition check_and_forward ::
  "hmtl_defs \<Rightarrow> ('st, 'out, 'obj) MessageHandler \<Rightarrow> 'obj msg_hdr \<Rightarrow> nat
     \<Rightarrow> fault + (bool \<times> ('st, 'out, 'obj) MessageHandler)" where
  "check_and_forward D h m i =
     (if msg_address m \<noteq> address h \<or> msg_address m = SOCKET_ADDR_ANY D then
        (case get_socket h (Some i) of
           Inl f \<Rightarrow> Inl f
         | Inr (j, s) \<Rightarrow>
             if unat (msg_length m) > unat (send_data_size s) then Inr (False, h)
             else
               (case memcpy (send_buffer s) (msg_bytes m) (unat (msg_length m)) of
                  Inl f \<Rightarrow> Inl f
                | Inr buf \<Rightarrow>
                    Inr (True,
                      log_io (Send_msg i (msg_address m) buf (unat (msg_length m)))
                        (put_socket h i (s\<lparr>send_buffer := buf\<rparr>)))))
      else Inr (False, h))"

text \<open>The forwarding loop of \<open>check_serial\<close> over the socket slots.\<close>

fun forward_loop ::
  "hmtl_defs \<Rightarrow> ('st, 'out, 'obj) MessageHandler \<Rightarrow> 'obj msg_hdr \<Rightarrow> nat list
     \<Rightarrow> fault + ('st, 'out, 'obj) MessageHandler" where
  "forward_loop D h m [] = Inr h"
| "forward_loop D h m (i # rest) =
     (case array_read (sockets h) i of
        Inl f \<Rightarrow> Inl f
      | Inr None \<Rightarrow> forward_loop D h m rest
      | Inr (Some s) \<Rightarrow>
          (case check_and_forward D h m i of
             Inl f \<Rightarrow> Inl f
           | Inr (r, h') \<Rightarrow> forward_loop D h' m rest))"

text \<open>
  \<open>check_serial\<close>. \<open>received\<close> is the message that \<open>hmtl_serial_getmsg\<close> has completed in
  \<open>serial_msg\<close> (\<open>None\<close> when it returns false) with the offset it leaves; \<open>now\<close> is
  \<open>time.ms()\<close>.
\<close>

definition check_serial ::
  "hmtl_defs \<Rightarrow> ('out, 'obj) hmtl_lib \<Rightarrow> 'st program_tracker option \<Rightarrow> 32 word
     \<Rightarrow> ('st, 'out, 'obj) MessageHandler \<Rightarrow> 'obj msg_hdr option \<times> nat \<Rightarrow> config_hdr
     \<Rightarrow> fault + (bool \<times> ('st, 'out, 'obj) MessageHandler)" where
  "check_serial D L fresh now h received config =
     (case fst received of
        None \<Rightarrow> Inr (False, h\<lparr>serial_msg_offset := snd received\<rparr>)
      | Some m \<Rightarrow>
          (case forward_loop D (log_io (Serial_println (HMTL_ACK D)) h) m
                  [0..<unat (num_sockets h)] of
             Inl f \<Rightarrow> Inl f
           | Inr h1 \<Rightarrow>
               (case array_read (sockets h1) 0 of
                  Inl f \<Rightarrow> Inl f
                | Inr s0 \<Rightarrow>
                    (case process_msg D L fresh h1 m None
                            (if s0 = None then None else Some 0) config of
                       Inl f \<Rightarrow> Inl f
                     | Inr (r, h2) \<Rightarrow>
                         Inr (r, h2\<lparr>serial_msg_offset := 0, last_serial_ms := now\<rparr>)))))"

text \<open>
  \<open>check_socket\<close>. \<open>received\<close> is the message that \<open>hmtl_socket_getmsg\<close> returns (\<open>None\<close> for
  null); \<open>socket\<close> and \<open>serial_socket\<close> are the two socket pointers.
\<close>

definition check_socket ::
  "hmtl_defs \<Rightarrow> ('out, 'obj) hmtl_lib \<Rightarrow> 'st program_tracker option
     \<Rightarrow> ('st, 'out, 'obj) MessageHandler \<Rightarrow> 'obj msg_hdr option \<Rightarrow> nat option \<Rightarrow> nat option
     \<Rightarrow> config_hdr \<Rightarrow> fault + (bool \<times> ('st, 'out, 'obj) MessageHandler)" where
  "check_socket D L fresh h received socket serial_socket config =
     (case received of
        None \<Rightarrow> Inr (False, h)
      | Some m \<Rightarrow>
          (case process_msg D L fresh h m socket serial_socket config of
             Inl f \<Rightarrow> Inl f
           | Inr (r, h') \<Rightarrow> if r then Inr (True, h') else Inr (False, h')))"

section \<open>Predicates used in the statements\<close>

text \<open>A program type is registered when one of the first \<open>num_programs\<close> entries of the table has it.\<close>

definition registered :: "('st, 'out, 'obj) ProgramManager \<Rightarrow> byte \<Rightarrow> bool" where
  "registered pm ty =
     (ty \<in> set (map ptype (take (unat (num_programs pm)) (program_functions pm))))"

text \<open>A setup function that leaves the tracker's program pointer and flags as it finds them.\<close>

definition setup_keeps_header :: "('st, 'out, 'obj) hmtl_program \<Rightarrow> bool" where
  "setup_keeps_header p =
     (\<forall>msg t. program (setup_fn p msg t) = program t \<and> flags (setup_fn p msg t) = flags t)"

text \<open>The calls made between two states of the manager.\<close>

definition new_events ::
  "('st, 'out, 'obj) ProgramManager \<Rightarrow> ('st, 'out, 'obj) ProgramManager \<Rightarrow> 'obj event list" where
  "new_events pm pm' = drop (length (trace pm)) (trace pm')"

text \<open>A call of a program function with the tracker of slot \<open>i\<close>.\<close>

definition steps_tracker :: "nat \<Rightarrow> 'obj event \<Rightarrow> bool" where
  "steps_tracker i e = (case e of Program_call k out obj tr \<Rightarrow> tr = Some i | _ \<Rightarrow> False)"

text \<open>The tracker of slot \<open>i\<close> exists and has the flag \<open>PROGRAM_TRACKER_DONE\<close>.\<close>

definition tracker_done :: "hmtl_defs \<Rightarrow> ('st, 'out, 'obj) ProgramManager \<Rightarrow> nat \<Rightarrow> bool" where
  "tracker_done D pm i =
     (case trackers pm ! i of
        None \<Rightarrow> False
      | Some t \<Rightarrow> flags t AND PROGRAM_TRACKER_DONE D \<noteq> 0)"

text \<open>
  The arrays hold slot \<open>j\<close>, and the program pointer of its tracker, if it has one, points
  into the table. A manager is well formed when this holds for its \<open>num_outputs\<close> slots.
\<close>

definition slot_ok :: "('st, 'out, 'obj) ProgramManager \<Rightarrow> nat \<Rightarrow> bool" where
  "slot_ok pm j =
     (j < length (trackers pm) \<and> j < length (outputs pm) \<and> j < length (objects pm) \<and>
      (case trackers pm ! j of
         None \<Rightarrow> True
       | Some t \<Rightarrow> program t < length (program_functions pm)))"

definition wf_manager :: "('st, 'out, 'obj) ProgramManager \<Rightarrow> bool" where
  "wf_manager pm = list_all (slot_ok pm) [0..<unat (num_outputs pm)]"

text \<open>The calls of \<open>free\<close> that \<open>free_tracker\<close> makes for slot \<open>i\<close>.\<close>

definition released :: "('st, 'out, 'obj) ProgramManager \<Rightarrow> nat \<Rightarrow> 'obj event list" where
  "released pm i =
     (case trackers pm ! i of
        None \<Rightarrow> []
      | Some t \<Rightarrow> (if state t \<noteq> None then [Free_state i] else []) @ [Free_tracker i])"

text \<open>Two states of the manager with arrays of the same lengths, the same table and the same count.\<close>

definition same_shape ::
  "('st, 'out, 'obj) ProgramManager \<Rightarrow> ('st, 'out, 'obj) ProgramManager \<Rightarrow> bool" where
  "same_shape pm pm' =
     (length (trackers pm') = length (trackers pm) \<and> length (outputs pm') = length (outputs pm) \<and>
      length (objects pm') = length (objects pm) \<and>
      program_functions pm' = program_functions pm \<and> num_outputs pm' = num_outputs pm)"

text \<open>
  A \<open>sendMsgTo\<close> on the socket of slot \<open>j\<close>, the number of them in a list of calls, and
  the test of \<open>check_and_forward\<close> that a message is no longer than the send buffer.
\<close>

definition is_send :: "nat \<Rightarrow> 'obj event \<Rightarrow> bool" where
  "is_send j e = (case e of Send_msg i a buf n \<Rightarrow> i = j | _ \<Rightarrow> False)"

definition sends_on :: "nat \<Rightarrow> 'obj event list \<Rightarrow> nat" where
  "sends_on j es = length (filter (is_send j) es)"

definition fits :: "'obj msg_hdr \<Rightarrow> socket \<Rightarrow> bool" where
  "fits m s = (unat (msg_length m) \<le> unat (send_data_size s))"

text \<open>A call of \<open>delay\<close>.\<close>

definition is_delay :: "'obj event \<Rightarrow> bool" where
  "is_delay e = (case e of Delay_ms d \<Rightarrow> True | _ \<Rightarrow> False)"

text \<open>
  The calls of \<open>sendMsgTo\<close> that forwarding a message makes on the socket of slot \<open>j\<close>:
  none when the message does not fit, else one, with the destination address of the
  message, the send buffer after the message's bytes have been copied to its start, and
  the length of the message.
\<close>

definition forwarded :: "nat \<Rightarrow> 'obj msg_hdr \<Rightarrow> socket \<Rightarrow> 'obj event list" where
  "forwarded j m s =
     (if fits m s then
        [Send_msg j (msg_address m)
           (take (unat (msg_length m)) (msg_bytes m) @ drop (unat (msg_length m)) (send_buffer s))
           (unat (msg_length m))]
      else [])"

text \<open>
  The memory that the forwarding loop touches is there: the array holds \<open>num_sockets\<close>
  slots, the message buffer holds the message, and the send buffer of every socket is as
  long as its \<open>send_data_size\<close> says.
\<close>

definition buffer_ok :: "socket option \<Rightarrow> bool" where
  "buffer_ok p =
     (case p of
        None \<Rightarrow> True
      | Some s \<Rightarrow> unat (send_data_size s) \<le> length (send_buffer s))"

definition can_forward :: "('st, 'out, 'obj) MessageHandler \<Rightarrow> 'obj msg_hdr \<Rightarrow> bool" where
  "can_forward h m =
     (unat (num_sockets h) \<le> length (sockets h) \<and>
      unat (msg_length m) \<le> length (msg_bytes m) \<and>
      list_all buffer_ok (take (unat (num_sockets h)) (sockets h)))"

section \<open>A small configuration for the examples\<close>

text \<open>
  Values for the macros, with an \<open>int\<close> of 16 bits as on the 8-bit boards; two outputs and
  a table of two programs: the reserved type that clears an output, and a program whose
  setup stores the parameters of the message as its state.
\<close>

definition example_defs :: hmtl_defs where
  "example_defs = \<lparr>HMTL_MSG_VERSION = 2, SOCKET_ADDR_ANY = 65535, MSG_FLAG_ACK = 1,
     MSG_TYPE_OUTPUT = 1, MSG_TYPE_POLL = 2, MSG_TYPE_SET_ADDR = 3, MSG_TYPE_SENSOR = 4,
     HMTL_OUTPUT_PROGRAM = 4, HMTL_PROGRAM_NONE = 0, PROGRAM_TRACKER_DONE = 1,
     PROGRAM_SENSOR_DATA = 16, OBJECT_TYPE = 0, HMTL_ACK = ''ack'', INT_BITS = 16\<rparr>"

definition example_programs :: "(byte list, nat, nat) hmtl_program list" where
  "example_programs =
     [\<lparr>ptype = 0, program_fn = (\<lambda>out obj tr. (False, out, obj, tr)),
        setup_fn = (\<lambda>msg tr. tr)\<rparr>,
      \<lparr>ptype = 1, program_fn = (\<lambda>out obj tr. (True, out, obj, tr)),
        setup_fn = (\<lambda>msg tr. tr\<lparr>state := Some (prog_values msg)\<rparr>)\<rparr>]"

definition example_manager :: "(byte list, nat, nat) ProgramManager" where
  "example_manager = \<lparr>outputs = [Some 10, Some 11], trackers = [None, None], objects = [0, 0],
     num_outputs = 2, program_functions = example_programs, num_programs = 2, trace = []\<rparr>"

definition example_msg :: msg_program where
  "example_msg = \<lparr>hdr = \<lparr>hdr_type = 4, hdr_output = 1\<rparr>, type = 1, prog_values = [7]\<rparr>"

text \<open>A block as \<open>malloc\<close> may return it, with arbitrary content.\<close>

definition example_block :: "byte list program_tracker" where
  "example_block = \<lparr>program = 9, flags = 1, state = None\<rparr>"

text \<open>The manager with a finished tracker on output 0 and a running one on output 1.\<close>

definition example_done :: "(byte list, nat, nat) ProgramManager" where
  "example_done = example_manager
     \<lparr>trackers := [Some \<lparr>program = 1, flags = 1, state = Some [3]\<rparr>,
                   Some \<lparr>program = 1, flags = 0, state = None\<rparr>]\<rparr>"

text \<open>
  A handler at address 3 with two sockets whose send buffers hold six bytes, library
  functions that leave outputs alone and format a poll response of three bytes, and
  messages: a broadcast poll, a broadcast set-address message, a broadcast output message
  that is not a program message, and the handler after the poll has arrived over serial.
\<close>

definition example_lib :: "(nat, nat) hmtl_lib" where
  "example_lib = \<lparr>hmtl_handle_output_msg = (\<lambda>m n outs objs. (outs, objs)),
     hmtl_poll_fmt = (\<lambda>buf size src fl ot cfg outs lim. ([1, 2, 3] @ drop 3 buf, 3)),
     sourceFromData = (\<lambda>s m. 9)\<rparr>"

definition example_socket :: socket where
  "example_socket = \<lparr>send_buffer = [0, 0, 0, 0, 0, 0], send_data_size = 6, recvLimit = 6,
     sourceAddress = 3\<rparr>"

definition example_handler :: "(byte list, nat, nat) MessageHandler" where
  "example_handler = \<lparr>address = 3, manager = example_manager,
     sockets = [Some example_socket, Some example_socket], num_sockets = 2,
     serial_msg_offset = 0, last_serial_ms = 0, last_ready_ms = 0\<rparr>"

definition example_config :: config_hdr where
  "example_config = \<lparr>device_id = 77, config_address = 3\<rparr>"

definition example_poll :: "nat msg_hdr" where
  "example_poll = \<lparr>msg_version = 2, msg_address = 65535, msg_type = 2, msg_flags = 0,
     msg_length = 4, msg_bytes = [2, 255, 255, 2], as_program = example_msg,
     as_set_addr = \<lparr>sa_device_id = 0, sa_address = 7\<rparr>, sensor_data = []\<rparr>"

definition example_set_addr :: "nat msg_hdr" where
  "example_set_addr = example_poll\<lparr>msg_type := 3\<rparr>"

definition example_value :: "nat msg_hdr" where
  "example_value = example_poll
     \<lparr>msg_type := 1, as_program := example_msg\<lparr>hdr := \<lparr>hdr_type = 1, hdr_output = 0\<rparr>\<rparr>\<rparr>"

definition example_forwarded :: "(byte list, nat, nat) MessageHandler" where
  "example_forwarded = example_handler
     \<lparr>manager := example_manager
        \<lparr>trace := [Serial_println ''ack'', Send_msg 0 65535 [2, 255, 255, 2, 0, 0] 4,
                   Send_msg 1 65535 [2, 255, 255, 2, 0, 0] 4, Serial_write [1, 2, 3, 2, 0, 0] 3]\<rparr>,
      sockets := [Some (example_socket\<lparr>send_buffer := [1, 2, 3, 2, 0, 0]\<rparr>),
                  Some (example_socket\<lparr>send_buffer := [2, 255, 255, 2, 0, 0]\<rparr>)],
      last_serial_ms := 5\<rparr>"

section \<open>The program table\<close>

lemma lookup_loop_Some:
  "lookup_loop fs ident xs = Inr (Some k)
     \<Longrightarrow> k \<in> set xs \<and> k < length fs \<and> ptype (fs ! k) = ident"
  by (induction xs) (auto simp: array_read_def split: if_splits)

lemma lookup_loop_None:
  "lookup_loop fs ident xs = Inr None \<Longrightarrow> i \<in> set xs
     \<Longrightarrow> i < length fs \<and> ptype (fs ! i) \<noteq> ident"
  by (induction xs) (auto simp: array_read_def split: if_splits)

lemma lookup_loop_total:
  "\<forall>i\<in>set xs. i < length fs \<Longrightarrow> \<exists>r. lookup_loop fs ident xs = Inr r"
  by (induction xs) (auto simp: array_read_def)

lemma lookup_loop_found:
  "\<forall>i\<in>set xs. i < length fs \<Longrightarrow> j \<in> set xs \<Longrightarrow> ptype (fs ! j) = ident
     \<Longrightarrow> \<exists>k. lookup_loop fs ident xs = Inr (Some k)"
  by (induction xs) (auto simp: array_read_def)

lemma registered_iff:
  assumes le: "unat (num_programs pm) \<le> length (program_functions pm)"
  shows "registered pm ty
     = (\<exists>i < unat (num_programs pm). ptype (program_functions pm ! i) = ty)"
proof -
  have "set (take (unat (num_programs pm)) (program_functions pm))
      = (!) (program_functions pm) ` {0..<unat (num_programs pm)}"
    using nth_image[OF le] by simp
  then show ?thesis unfolding registered_def by auto
qed

lemma lookup_function_Some:
  "lookup_function pm ty = Inr (Some k)
     \<Longrightarrow> k < unat (num_programs pm) \<and> k < length (program_functions pm)
         \<and> ptype (program_functions pm ! k) = ty"
  using lookup_loop_Some[of "program_functions pm" ty "[0..<unat (num_programs pm)]" k]
  by (simp add: lookup_function_def)

lemma lookup_function_None_iff:
  assumes le: "unat (num_programs pm) \<le> length (program_functions pm)"
  shows "(lookup_function pm ty = Inr None) = (\<not> registered pm ty)"
proof
  assume "lookup_function pm ty = Inr None"
  then show "\<not> registered pm ty"
    using lookup_loop_None[of "program_functions pm" ty "[0..<unat (num_programs pm)]"]
    by (auto simp: registered_iff[OF le] lookup_function_def)
next
  assume nr: "\<not> registered pm ty"
  have inb: "\<forall>i\<in>set [0..<unat (num_programs pm)]. i < length (program_functions pm)"
    using le by auto
  obtain r where r: "lookup_function pm ty = Inr r"
    using lookup_loop_total[OF inb] by (auto simp: lookup_function_def)
  show "lookup_function pm ty = Inr None"
  proof (cases r)
    case None
    with r show ?thesis by simp
  next
    case (Some k)
    with r have "k < unat (num_programs pm) \<and> ptype (program_functions pm ! k) = ty"
      using lookup_function_Some[of pm ty k] by simp
    with nr show ?thesis by (auto simp: registered_iff[OF le])
  qed
qed

lemma lookup_function_registered:
  assumes le: "unat (num_programs pm) \<le> length (program_functions pm)"
      and reg: "registered pm ty"
  shows "\<exists>k. lookup_function pm ty = Inr (Some k)"
proof -
  have inb: "\<forall>i\<in>set [0..<unat (num_programs pm)]. i < length (program_functions pm)"
    using le by auto
  from reg obtain j where "j < unat (num_programs pm)" "ptype (program_functions pm ! j) = ty"
    by (auto simp: registered_iff[OF le])
  then show ?thesis
    using lookup_loop_found[OF inb, of j ty] by (simp add: lookup_function_def)
qed

text \<open>
  C9. \<open>run_program\<close> calls through the result of \<open>lookup_function\<close> without testing it.
  With a table that holds its \<open>num_programs\<close> entries, the call goes through a null
  program pointer exactly when the type is not registered; for a registered type the
  program function of the entry found is called with a null output and a null tracker,
  and \<open>run_program\<close> returns \<open>false\<close>.
\<close>

theorem run_program_unchecked_lookup:
  assumes le: "unat (num_programs pm) \<le> length (program_functions pm)"
  shows "(run_program pm ty arg = Inl NullDeref) = (\<not> registered pm ty) \<and>
         (registered pm ty \<longrightarrow>
            (\<exists>k. lookup_function pm ty = Inr (Some k) \<and>
               run_program pm ty arg
                 = Inr (False, log_event (Program_call k None arg None) pm)))"
proof (cases "registered pm ty")
  case True
  then obtain k where k: "lookup_function pm ty = Inr (Some k)"
    using lookup_function_registered[OF le] by blast
  then have "run_program pm ty arg = Inr (False, log_event (Program_call k None arg None) pm)"
    by (simp add: run_program_def split: prod.splits)
  with True k show ?thesis by simp
next
  case False
  then have "lookup_function pm ty = Inr None"
    using lookup_function_None_iff[OF le] by simp
  then have "run_program pm ty arg = Inl NullDeref"
    by (simp add: run_program_def)
  with False show ?thesis by simp
qed

theorem run_program_unchecked_lookup_witness:
  "unat (num_programs example_manager) \<le> length (program_functions example_manager) \<and>
   \<not> registered example_manager 16 \<and>
   run_program example_manager 16 (5::nat) = Inl NullDeref"
proof -
  have le: "unat (num_programs example_manager) \<le> length (program_functions example_manager)"
    by (simp add: example_manager_def example_programs_def)
  have nr: "\<not> registered example_manager 16"
    by (simp add: registered_def example_manager_def example_programs_def)
  show ?thesis
    using le nr run_program_unchecked_lookup[OF le, of 16 5] by simp
qed

section \<open>Assigning a program\<close>

lemma handle_msg_assign_fresh:
  assumes ok: "handle_msg D fresh pm msg = Inr (True, pm')"
      and reg: "lookup_function pm (type msg) = Inr (Some k)"
      and prog: "ptype (program_functions pm ! k) \<noteq> HMTL_PROGRAM_NONE D"
      and slot: "trackers pm ! unat (hdr_output (hdr msg)) = None"
  shows "\<exists>t0. fresh = Some t0 \<and> unat (hdr_output (hdr msg)) < length (trackers pm) \<and>
           pm' = pm\<lparr>trace := trace pm @ [Setup_call k msg (unat (hdr_output (hdr msg)))],
                    trackers := (trackers pm)[unat (hdr_output (hdr msg)) :=
                      Some (setup_fn (program_functions pm ! k) msg
                              (t0\<lparr>program := k, flags := 0\<rparr>))]\<rparr>"
  using ok reg prog slot
  unfolding handle_msg_def array_read_def log_event_def
  by (cases fresh) (auto simp: Let_def split: if_splits option.splits)

lemma handle_msg_assign_reuse:
  assumes ok: "handle_msg D fresh pm msg = Inr (True, pm')"
      and reg: "lookup_function pm (type msg) = Inr (Some k)"
      and prog: "ptype (program_functions pm ! k) \<noteq> HMTL_PROGRAM_NONE D"
      and slot: "trackers pm ! unat (hdr_output (hdr msg)) = Some t0"
  shows "unat (hdr_output (hdr msg)) < length (trackers pm) \<and>
           pm' = pm\<lparr>trace := trace pm
                      @ (if state t0 \<noteq> None then [Free_state (unat (hdr_output (hdr msg)))] else [])
                      @ [Setup_call k msg (unat (hdr_output (hdr msg)))],
                    trackers := (trackers pm)[unat (hdr_output (hdr msg)) :=
                      Some (setup_fn (program_functions pm ! k) msg
                              (t0\<lparr>program := k, flags := 0\<rparr>))]\<rparr>"
  using ok reg prog slot
  unfolding handle_msg_def array_read_def log_event_def
  by (cases "state t0") (auto simp: Let_def split: if_splits option.splits)

lemma handle_msg_assign_form:
  assumes ok: "handle_msg D fresh pm msg = Inr (True, pm')"
      and reg: "lookup_function pm (type msg) = Inr (Some k)"
      and prog: "ptype (program_functions pm ! k) \<noteq> HMTL_PROGRAM_NONE D"
  shows "\<exists>t0 es. unat (hdr_output (hdr msg)) < length (trackers pm) \<and>
           pm' = pm\<lparr>trace := trace pm @ es @ [Setup_call k msg (unat (hdr_output (hdr msg)))],
                    trackers := (trackers pm)[unat (hdr_output (hdr msg)) :=
                      Some (setup_fn (program_functions pm ! k) msg
                              (t0\<lparr>program := k, flags := 0\<rparr>))]\<rparr>"
proof (cases "trackers pm ! unat (hdr_output (hdr msg))")
  case None
  from handle_msg_assign_fresh[OF ok reg prog None] obtain t0 where
    "unat (hdr_output (hdr msg)) < length (trackers pm) \<and>
     pm' = pm\<lparr>trace := trace pm @ [] @ [Setup_call k msg (unat (hdr_output (hdr msg)))],
                    trackers := (trackers pm)[unat (hdr_output (hdr msg)) :=
                      Some (setup_fn (program_functions pm ! k) msg
                              (t0\<lparr>program := k, flags := 0\<rparr>))]\<rparr>"
    by auto
  then show ?thesis by blast
next
  case (Some t0)
  from handle_msg_assign_reuse[OF ok reg prog Some] show ?thesis by blast
qed

text \<open>
  C1. When \<open>handle_msg\<close> returns \<open>true\<close> for a message whose program type is found in the
  table at entry \<open>k\<close> and is not the reserved type, the slot of the message's output holds a
  tracker afterwards; that tracker is what the program's setup function, called last with
  the message and this tracker, made of a tracker whose program pointer is entry \<open>k\<close> and
  whose flags are zero. With a setup function that leaves program pointer and flags
  alone, the tracker in the slot still has them.
\<close>

theorem handle_msg_assigns_program:
  assumes ok: "handle_msg D fresh pm msg = Inr (True, pm')"
      and reg: "lookup_function pm (type msg) = Inr (Some k)"
      and prog: "ptype (program_functions pm ! k) \<noteq> HMTL_PROGRAM_NONE D"
  shows "\<exists>t. program t = k \<and> flags t = 0 \<and>
           unat (hdr_output (hdr msg)) < length (trackers pm') \<and>
           trackers pm' ! unat (hdr_output (hdr msg))
             = Some (setup_fn (program_functions pm ! k) msg t) \<and>
           last (trace pm') = Setup_call k msg (unat (hdr_output (hdr msg))) \<and>
           (setup_keeps_header (program_functions pm ! k) \<longrightarrow>
              (\<exists>t'. trackers pm' ! unat (hdr_output (hdr msg)) = Some t' \<and>
                 program t' = k \<and> flags t' = 0))"
proof -
  from handle_msg_assign_form[OF ok reg prog] obtain t0 es where
    len: "unat (hdr_output (hdr msg)) < length (trackers pm)" and
    pm': "pm' = pm\<lparr>trace := trace pm @ es @ [Setup_call k msg (unat (hdr_output (hdr msg)))],
                    trackers := (trackers pm)[unat (hdr_output (hdr msg)) :=
                      Some (setup_fn (program_functions pm ! k) msg
                              (t0\<lparr>program := k, flags := 0\<rparr>))]\<rparr>"
    by blast
  let ?t = "t0\<lparr>program := k, flags := 0\<rparr>"
  have "program ?t = k \<and> flags ?t = 0 \<and>
           unat (hdr_output (hdr msg)) < length (trackers pm') \<and>
           trackers pm' ! unat (hdr_output (hdr msg))
             = Some (setup_fn (program_functions pm ! k) msg ?t) \<and>
           last (trace pm') = Setup_call k msg (unat (hdr_output (hdr msg))) \<and>
           (setup_keeps_header (program_functions pm ! k) \<longrightarrow>
              (\<exists>t'. trackers pm' ! unat (hdr_output (hdr msg)) = Some t' \<and>
                 program t' = k \<and> flags t' = 0))"
    using len by (simp add: pm' setup_keeps_header_def)
  then show ?thesis by blast
qed

lemma upt_2: "[0..<2] = [0, Suc 0]"
  by (simp add: upt_conv_Cons)

lemma example_lookup: "lookup_function example_manager 1 = Inr (Some 1)"
  by (simp add: lookup_function_def example_manager_def example_programs_def array_read_def
      upt_2)

theorem handle_msg_assigns_program_witness:
  "handle_msg example_defs (Some example_block) example_manager example_msg
     = Inr (True, example_manager
          \<lparr>trackers := [None, Some \<lparr>program = 1, flags = 0, state = Some [7]\<rparr>],
           trace := [Setup_call 1 example_msg 1]\<rparr>) \<and>
   lookup_function example_manager (type example_msg) = Inr (Some 1) \<and>
   ptype (program_functions example_manager ! 1) \<noteq> HMTL_PROGRAM_NONE example_defs \<and>
   (\<exists>t. program t = 1 \<and> flags t = 0 \<and>
      [None, Some \<lparr>program = 1, flags = 0, state = Some [7::byte]\<rparr>] ! 1
        = Some (setup_fn (program_functions example_manager ! 1) example_msg t))"
proof -
  let ?pm' = "example_manager
          \<lparr>trackers := [None, Some \<lparr>program = 1, flags = 0, state = Some [7]\<rparr>],
           trace := [Setup_call 1 example_msg 1]\<rparr>"
  have reg: "lookup_function example_manager (type example_msg) = Inr (Some 1)"
    using example_lookup by (simp add: example_msg_def)
  have ok: "handle_msg example_defs (Some example_block) example_manager example_msg
     = Inr (True, ?pm')"
    unfolding handle_msg_def reg
    by (simp add: example_manager_def example_programs_def array_read_def example_msg_def
        example_defs_def example_block_def log_event_def)
  have prog: "ptype (program_functions example_manager ! 1) \<noteq> HMTL_PROGRAM_NONE example_defs"
    by (simp add: example_manager_def example_programs_def example_defs_def)
  from handle_msg_assigns_program[OF ok reg prog]
  have "\<exists>t. program t = 1 \<and> flags t = 0 \<and>
      trackers ?pm' ! 1 = Some (setup_fn (program_functions example_manager ! 1) example_msg t)"
    by (auto simp: example_msg_def)
  then show ?thesis using ok reg prog by simp
qed

section \<open>Releasing a tracker\<close>

lemma free_tracker_eq:
  "i < length (trackers pm) \<Longrightarrow>
   free_tracker pm i
     = Inr (pm\<lparr>trace := trace pm @ released pm i, trackers := (trackers pm)[i := None]\<rparr>)"
  by (cases "trackers pm ! i")
     (auto simp: free_tracker_def array_read_def released_def log_event_def Let_def)

text \<open>
  C6. For a message of the reserved type \<open>HMTL_PROGRAM_NONE\<close>, with that type in the table,
  an output index below \<open>num_outputs\<close> and an output descriptor that is not null,
  \<open>handle_msg\<close> returns \<open>true\<close> whatever the slot holds: the slot is empty afterwards, a
  tracker it held is freed (its state first, when it has one), and nothing else changes.
\<close>

theorem handle_msg_none_clears:
  assumes le: "unat (num_programs pm) \<le> length (program_functions pm)"
      and reg: "registered pm (HMTL_PROGRAM_NONE D)"
      and none: "type msg = HMTL_PROGRAM_NONE D"
      and valid: "unat (hdr_output (hdr msg)) < unat (num_outputs pm)"
      and outs: "unat (num_outputs pm) \<le> length (outputs pm)"
      and trs: "unat (num_outputs pm) \<le> length (trackers pm)"
      and desc: "outputs pm ! unat (hdr_output (hdr msg)) \<noteq> None"
  shows "handle_msg D fresh pm msg
           = Inr (True, pm\<lparr>trace := trace pm @ released pm (unat (hdr_output (hdr msg))),
                           trackers := (trackers pm)[unat (hdr_output (hdr msg)) := None]\<rparr>)"
proof -
  from lookup_function_registered[OF le reg] obtain k where
    k: "lookup_function pm (type msg) = Inr (Some k)" using none by auto
  then have pk: "ptype (program_functions pm ! k) = HMTL_PROGRAM_NONE D"
    using lookup_function_Some[of pm "type msg" k] none by simp
  have i1: "unat (hdr_output (hdr msg)) < length (outputs pm)" using valid outs by simp
  have i2: "unat (hdr_output (hdr msg)) < length (trackers pm)" using valid trs by simp
  show ?thesis
    using k pk i1 i2 valid desc
    by (auto simp: handle_msg_def array_read_def free_tracker_eq split: option.splits)
qed

theorem handle_msg_none_clears_witness:
  "unat (num_programs example_done) \<le> length (program_functions example_done) \<and>
   registered example_done (HMTL_PROGRAM_NONE example_defs) \<and>
   handle_msg example_defs None example_done
       \<lparr>hdr = \<lparr>hdr_type = 4, hdr_output = 0\<rparr>, type = 0, prog_values = []\<rparr>
     = Inr (True, example_done
         \<lparr>trace := [Free_state 0, Free_tracker 0],
          trackers := [None, Some \<lparr>program = 1, flags = 0, state = None\<rparr>]\<rparr>)"
proof -
  let ?msg = "\<lparr>hdr = \<lparr>hdr_type = 4, hdr_output = 0\<rparr>, type = 0, prog_values = []\<rparr>"
  have le: "unat (num_programs example_done) \<le> length (program_functions example_done)"
    by (simp add: example_done_def example_manager_def example_programs_def)
  have reg: "registered example_done (HMTL_PROGRAM_NONE example_defs)"
    by (simp add: registered_def example_done_def example_manager_def example_programs_def
        example_defs_def)
  have none: "type ?msg = HMTL_PROGRAM_NONE example_defs" by (simp add: example_defs_def)
  have valid: "unat (hdr_output (hdr ?msg)) < unat (num_outputs example_done)"
    by (simp add: example_done_def example_manager_def)
  have outs: "unat (num_outputs example_done) \<le> length (outputs example_done)"
    by (simp add: example_done_def example_manager_def)
  have trs: "unat (num_outputs example_done) \<le> length (trackers example_done)"
    by (simp add: example_done_def example_manager_def)
  have desc: "outputs example_done ! unat (hdr_output (hdr ?msg)) \<noteq> None"
    by (simp add: example_done_def example_manager_def)
  show ?thesis
    using le reg handle_msg_none_clears[OF le reg none valid outs trs desc, of None]
    by (simp add: released_def example_done_def example_manager_def)
qed

section \<open>The output check\<close>

text \<open>
  What the check does: an output index above \<open>num_outputs\<close>, and a null output
  descriptor, make \<open>handle_msg\<close> return \<open>false\<close> with the manager as it was.
\<close>

lemma handle_msg_invalid_output:
  assumes "lookup_function pm (type msg) = Inr r"
      and "unat (hdr_output (hdr msg)) > unat (num_outputs pm) \<or>
           (unat (hdr_output (hdr msg)) < length (outputs pm) \<and>
            outputs pm ! unat (hdr_output (hdr msg)) = None)"
  shows "handle_msg D fresh pm msg = Inr (False, pm)"
  using assms by (auto simp: handle_msg_def array_read_def split: option.splits)

text \<open>
  C3. The check is \<open>msg->hdr.output > num_outputs\<close>, so the index \<open>num_outputs\<close> itself
  passes. With two outputs in arrays of two elements, a message for output 2 reads
  \<open>outputs[2]\<close>, which the array does not hold. With one output in arrays that have room
  for two, a message for output 1 is accepted and a tracker is installed in slot 1.
\<close>

theorem handle_msg_output_equal_num_outputs:
  "handle_msg example_defs (Some example_block) example_manager
       (example_msg\<lparr>hdr := \<lparr>hdr_type = 4, hdr_output = 2\<rparr>\<rparr>) = Inl OutOfBounds \<and>
   handle_msg example_defs (Some example_block) (example_manager\<lparr>num_outputs := 1\<rparr>) example_msg
     = Inr (True, example_manager
          \<lparr>num_outputs := 1,
           trackers := [None, Some \<lparr>program = 1, flags = 0, state = Some [7]\<rparr>],
           trace := [Setup_call 1 example_msg 1]\<rparr>)"
proof -
  have l1: "lookup_function example_manager 1 = Inr (Some 1)"
    by (simp add: lookup_function_def example_manager_def example_programs_def array_read_def
      upt_2)
  have l2: "lookup_function (example_manager\<lparr>num_outputs := 1\<rparr>) 1 = Inr (Some 1)"
    using l1 by (simp add: lookup_function_def)
  have a: "handle_msg example_defs (Some example_block) example_manager
       (example_msg\<lparr>hdr := \<lparr>hdr_type = 4, hdr_output = 2\<rparr>\<rparr>) = Inl OutOfBounds"
    unfolding handle_msg_def
    by (simp add: example_msg_def l1) (simp add: example_manager_def array_read_def)
  have b: "handle_msg example_defs (Some example_block) (example_manager\<lparr>num_outputs := 1\<rparr>) example_msg
     = Inr (True, example_manager
          \<lparr>num_outputs := 1,
           trackers := [None, Some \<lparr>program = 1, flags = 0, state = Some [7]\<rparr>],
           trace := [Setup_call 1 example_msg 1]\<rparr>)"
    unfolding handle_msg_def
    by (simp add: example_msg_def l2)
       (simp add: example_manager_def example_programs_def array_read_def
        example_defs_def example_block_def log_event_def example_msg_def)
  from a b show ?thesis by simp
qed

section \<open>The scheduler tick\<close>

lemma run_output_effect:
  assumes ok: "slot_ok pm j"
  shows "\<exists>c pm' es. run_output D pm j = Inr (c, pm') \<and> same_shape pm pm' \<and>
           (\<forall>k. k \<noteq> j \<longrightarrow> trackers pm' ! k = trackers pm ! k) \<and>
           trace pm' = trace pm @ es \<and>
           (\<forall>e\<in>set es. \<forall>k. steps_tracker k e \<longrightarrow> k = j \<and> \<not> tracker_done D pm k) \<and>
           (tracker_done D pm j \<longrightarrow> trackers pm' ! j = None \<and> Free_tracker j \<in> set es)"
proof (cases "trackers pm ! j")
  case None
  then have "run_output D pm j = Inr (False, pm)"
    using ok by (simp add: run_output_def array_read_def slot_ok_def)
  then show ?thesis
    using None by (auto simp: same_shape_def tracker_done_def intro!: exI[of _ "[]"])
next
  case (Some t)
  show ?thesis
  proof (cases "flags t AND PROGRAM_TRACKER_DONE D \<noteq> 0")
    case True
    have "run_output D pm j
       = Inr (False, pm\<lparr>trace := trace pm @ released pm j, trackers := (trackers pm)[j := None]\<rparr>)"
      using ok Some True by (simp add: run_output_def array_read_def slot_ok_def free_tracker_eq)
    moreover have "Free_tracker j \<in> set (released pm j)"
      using Some by (simp add: released_def)
    moreover have "\<forall>e\<in>set (released pm j). \<forall>k. \<not> steps_tracker k e"
      using Some by (auto simp: released_def steps_tracker_def)
    ultimately show ?thesis
      using ok by (auto simp: same_shape_def slot_ok_def intro!: exI[of _ "released pm j"])
  next
    case False
    obtain c out' obj' tr' where call:
      "program_fn (program_functions pm ! program t) (outputs pm ! j) (objects pm ! j) (Some t)
         = (c, out', obj', tr')"
      by (cases "program_fn (program_functions pm ! program t) (outputs pm ! j) (objects pm ! j) (Some t)")
         auto
    let ?e = "Program_call (program t) (if outputs pm ! j = None then None else Some j)
                (objects pm ! j) (Some j)"
    have "run_output D pm j
       = Inr (c, pm\<lparr>trace := trace pm @ [?e],
                  outputs := (outputs pm)[j := pointee (outputs pm ! j) out'],
                  objects := (objects pm)[j := obj'],
                  trackers := (trackers pm)[j := pointee (Some t) tr']\<rparr>)"
      using ok Some False call
      by (simp add: run_output_def array_read_def slot_ok_def log_event_def)
    moreover have "\<forall>k. steps_tracker k ?e \<longrightarrow> k = j" by (simp add: steps_tracker_def)
    moreover have "\<not> tracker_done D pm j" using Some False by (simp add: tracker_done_def)
    ultimately show ?thesis
      by (auto simp: same_shape_def intro!: exI[of _ "[?e]"])
  qed
qed

lemma slot_ok_frame:
  "slot_ok pm k \<Longrightarrow> same_shape pm pm' \<Longrightarrow> trackers pm' ! k = trackers pm ! k \<Longrightarrow> slot_ok pm' k"
  by (auto simp: slot_ok_def same_shape_def split: option.splits)

lemma run_loop_effect:
  assumes "distinct js" and "\<forall>j\<in>set js. slot_ok pm j"
  shows "\<exists>u pm' es. run_loop D js upd pm = Inr (u, pm') \<and> same_shape pm pm' \<and>
           (\<forall>k. k \<notin> set js \<longrightarrow> trackers pm' ! k = trackers pm ! k) \<and>
           trace pm' = trace pm @ es \<and>
           (\<forall>e\<in>set es. \<forall>k. steps_tracker k e \<longrightarrow> k \<in> set js \<and> \<not> tracker_done D pm k) \<and>
           (\<forall>k\<in>set js. tracker_done D pm k \<longrightarrow> trackers pm' ! k = None \<and> Free_tracker k \<in> set es)"
  using assms
proof (induction js arbitrary: pm upd)
  case Nil
  then show ?case by (simp add: same_shape_def)
next
  case (Cons j js)
  from Cons.prems have okj: "slot_ok pm j" and jnot: "j \<notin> set js" and dist: "distinct js"
    by auto
  from run_output_effect[OF okj, of D] obtain c pm1 es1 where
    r1: "run_output D pm j = Inr (c, pm1)" and sh1: "same_shape pm pm1" and
    fr1: "\<forall>k. k \<noteq> j \<longrightarrow> trackers pm1 ! k = trackers pm ! k" and
    tr1: "trace pm1 = trace pm @ es1" and
    st1: "\<forall>e\<in>set es1. \<forall>k. steps_tracker k e \<longrightarrow> k = j \<and> \<not> tracker_done D pm k" and
    dn1: "tracker_done D pm j \<longrightarrow> trackers pm1 ! j = None \<and> Free_tracker j \<in> set es1"
    by blast
  have ok1: "\<forall>k\<in>set js. slot_ok pm1 k"
    using Cons.prems jnot sh1 fr1 by (auto intro: slot_ok_frame)
  from Cons.IH[OF dist ok1, of "if c then True else upd"] obtain u pm' es2 where
    r2: "run_loop D js (if c then True else upd) pm1 = Inr (u, pm')" and sh2: "same_shape pm1 pm'" and
    fr2: "\<forall>k. k \<notin> set js \<longrightarrow> trackers pm' ! k = trackers pm1 ! k" and
    tr2: "trace pm' = trace pm1 @ es2" and
    st2: "\<forall>e\<in>set es2. \<forall>k. steps_tracker k e \<longrightarrow> k \<in> set js \<and> \<not> tracker_done D pm1 k" and
    dn2: "\<forall>k\<in>set js. tracker_done D pm1 k \<longrightarrow> trackers pm' ! k = None \<and> Free_tracker k \<in> set es2"
    by blast
  have same_done: "\<And>k. k \<noteq> j \<Longrightarrow> tracker_done D pm1 k = tracker_done D pm k"
    using fr1 by (simp add: tracker_done_def)
  have run: "run_loop D (j # js) upd pm = Inr (u, pm')" using r1 r2 by simp
  have shape: "same_shape pm pm'" using sh1 sh2 by (simp add: same_shape_def)
  have frame: "\<forall>k. k \<notin> set (j # js) \<longrightarrow> trackers pm' ! k = trackers pm ! k"
    using fr1 fr2 by simp
  have tr: "trace pm' = trace pm @ (es1 @ es2)" using tr1 tr2 by simp
  have steps: "\<forall>e\<in>set (es1 @ es2). \<forall>k. steps_tracker k e \<longrightarrow> k \<in> set (j # js) \<and> \<not> tracker_done D pm k"
  proof (intro ballI allI impI)
    fix e k
    assume e: "e \<in> set (es1 @ es2)" and sk: "steps_tracker k e"
    show "k \<in> set (j # js) \<and> \<not> tracker_done D pm k"
    proof (cases "e \<in> set es1")
      case True
      with st1 sk show ?thesis by auto
    next
      case False
      with e have "e \<in> set es2" by simp
      with st2 sk have k: "k \<in> set js" and nd: "\<not> tracker_done D pm1 k" by auto
      from k jnot have "k \<noteq> j" by auto
      with nd same_done have "\<not> tracker_done D pm k" by simp
      with k show ?thesis by simp
    qed
  qed
  have dones: "\<forall>k\<in>set (j # js). tracker_done D pm k \<longrightarrow> trackers pm' ! k = None \<and> Free_tracker k \<in> set (es1 @ es2)"
  proof (intro ballI impI)
    fix k
    assume k: "k \<in> set (j # js)" and dk: "tracker_done D pm k"
    show "trackers pm' ! k = None \<and> Free_tracker k \<in> set (es1 @ es2)"
    proof (cases "k = j")
      case True
      with dn1 dk have "trackers pm1 ! j = None" "Free_tracker j \<in> set es1" by auto
      moreover have "trackers pm' ! j = trackers pm1 ! j" using fr2 jnot by simp
      ultimately show ?thesis using True by simp
    next
      case False
      with k have kjs: "k \<in> set js" by simp
      from False dk same_done have "tracker_done D pm1 k" by simp
      with dn2 kjs show ?thesis by auto
    qed
  qed
  from run shape frame tr steps dones show ?case by blast
qed

text \<open>
  C2. In a well-formed manager, \<open>run\<close> returns; for an output below \<open>num_outputs\<close> whose
  tracker has the flag \<open>PROGRAM_TRACKER_DONE\<close> when \<open>run\<close> starts, it makes no call of a
  program function with that tracker, it frees the tracker, and the slot is empty when
  it returns.
\<close>

theorem run_releases_done_tracker:
  assumes wf: "wf_manager pm"
      and i: "i < unat (num_outputs pm)"
      and slot: "trackers pm ! i = Some t"
      and dflag: "flags t AND PROGRAM_TRACKER_DONE D \<noteq> 0"
  shows "\<exists>u pm'. run D pm = Inr (u, pm') \<and>
           trackers pm' ! i = None \<and>
           \<not> list_ex (steps_tracker i) (new_events pm pm') \<and>
           Free_tracker i \<in> set (new_events pm pm')"
proof -
  let ?js = "[0..<unat (num_outputs pm)]"
  have oks: "\<forall>j\<in>set ?js. slot_ok pm j"
    using wf by (simp add: wf_manager_def list_all_iff)
  have d: "tracker_done D pm i" using slot dflag by (simp add: tracker_done_def)
  from run_loop_effect[OF _ oks, of D False] obtain u pm' es where
    r: "run_loop D ?js False pm = Inr (u, pm')" and
    tr: "trace pm' = trace pm @ es" and
    st: "\<forall>e\<in>set es. \<forall>k. steps_tracker k e \<longrightarrow> k \<in> set ?js \<and> \<not> tracker_done D pm k" and
    dn: "\<forall>k\<in>set ?js. tracker_done D pm k \<longrightarrow> trackers pm' ! k = None \<and> Free_tracker k \<in> set es"
    by auto
  have ne: "new_events pm pm' = es" using tr by (simp add: new_events_def)
  have "trackers pm' ! i = None \<and> Free_tracker i \<in> set es" using dn d i by simp
  moreover have "\<not> list_ex (steps_tracker i) es" using st d by (auto simp: list_ex_iff)
  ultimately show ?thesis using r ne by (simp add: run_def)
qed

theorem run_releases_done_tracker_witness:
  "wf_manager example_done \<and> 0 < unat (num_outputs example_done) \<and>
   trackers example_done ! 0 = Some \<lparr>program = 1, flags = 1, state = Some [3]\<rparr> \<and>
   flags \<lparr>program = 1, flags = 1, state = Some [3::byte]\<rparr>
     AND PROGRAM_TRACKER_DONE example_defs \<noteq> 0 \<and>
   (\<exists>u pm'. run example_defs example_done = Inr (u, pm') \<and>
      trackers pm' ! 0 = None \<and>
      \<not> list_ex (steps_tracker 0) (new_events example_done pm') \<and>
      Free_tracker 0 \<in> set (new_events example_done pm'))"
proof -
  have wf: "wf_manager example_done"
    by (simp add: wf_manager_def slot_ok_def example_done_def example_manager_def
        example_programs_def upt_2)
  have i: "0 < unat (num_outputs example_done)"
    by (simp add: example_done_def example_manager_def)
  have slot: "trackers example_done ! 0 = Some \<lparr>program = 1, flags = 1, state = Some [3]\<rparr>"
    by (simp add: example_done_def)
  have dflag: "flags \<lparr>program = 1, flags = 1, state = Some [3::byte]\<rparr>
      AND PROGRAM_TRACKER_DONE example_defs \<noteq> 0"
    by (simp add: example_defs_def)
  show ?thesis
    using wf i slot dflag run_releases_done_tracker[OF wf i slot dflag] by simp
qed

lemma example_run:
  "run example_defs example_done
     = Inr (True, example_done
         \<lparr>trackers := [None, Some \<lparr>program = 1, flags = 0, state = None\<rparr>],
          trace := [Free_state 0, Free_tracker 0, Program_call 1 (Some 1) 0 (Some 1)]\<rparr>)"
  by (simp add: run_def run_output_def free_tracker_def array_read_def log_event_def pointee_def
      example_done_def example_manager_def example_programs_def example_defs_def upt_2)

section \<open>The size check before forwarding\<close>

text \<open>
  C7. For a socket that exists, a message longer than \<open>send_data_size\<close> makes
  \<open>check_and_forward\<close> return \<open>false\<close> with the handler, its send buffers and the trace of
  calls as they were: nothing is copied and nothing is sent. Whenever the function
  returns \<open>true\<close> or leaves anything changed, the length is at most \<open>send_data_size\<close>.
\<close>

theorem check_and_forward_too_large:
  assumes sock: "get_socket h (Some i) = Inr (i, s)"
  shows "(unat (msg_length m) > unat (send_data_size s)
            \<longrightarrow> check_and_forward D h m i = Inr (False, h)) \<and>
         (\<forall>r h'. check_and_forward D h m i = Inr (r, h') \<and> (r \<or> h' \<noteq> h)
            \<longrightarrow> unat (msg_length m) \<le> unat (send_data_size s))"
  using sock by (auto simp: check_and_forward_def split: sum.splits if_splits)

theorem check_and_forward_too_large_witness:
  "get_socket example_handler (Some 0) = Inr (0, example_socket) \<and>
   unat (msg_length (example_poll\<lparr>msg_length := 9\<rparr>)) > unat (send_data_size example_socket) \<and>
   check_and_forward example_defs example_handler (example_poll\<lparr>msg_length := 9\<rparr>) 0
     = Inr (False, example_handler) \<and>
   check_and_forward example_defs example_handler example_poll 0
     = Inr (True,
         log_io (Send_msg 0 65535 [2, 255, 255, 2, 0, 0] 4)
           (put_socket example_handler 0
              (example_socket\<lparr>send_buffer := [2, 255, 255, 2, 0, 0]\<rparr>))) \<and>
   unat (msg_length example_poll) \<le> unat (send_data_size example_socket)"
proof -
  have sock: "get_socket example_handler (Some 0) = Inr (0, example_socket)"
    by (simp add: get_socket_def array_read_def example_handler_def)
  have big: "unat (msg_length (example_poll\<lparr>msg_length := 9\<rparr>)) > unat (send_data_size example_socket)"
    by (simp add: example_socket_def)
  have sent: "check_and_forward example_defs example_handler example_poll 0
     = Inr (True,
         log_io (Send_msg 0 65535 [2, 255, 255, 2, 0, 0] 4)
           (put_socket example_handler 0
              (example_socket\<lparr>send_buffer := [2, 255, 255, 2, 0, 0]\<rparr>)))"
    unfolding check_and_forward_def sock
    by (simp add: memcpy_def example_poll_def example_defs_def example_handler_def
        example_socket_def)
  have fit: "unat (msg_length example_poll) \<le> unat (send_data_size example_socket)"
    using check_and_forward_too_large[OF sock, of example_poll example_defs] sent by blast
  show ?thesis
    using sock big sent fit
      check_and_forward_too_large[OF sock, of "example_poll\<lparr>msg_length := 9\<rparr>" example_defs]
    by simp
qed

section \<open>Setting the address\<close>

lemma check_and_forward_address:
  "check_and_forward D h m i = Inr (r, h') \<Longrightarrow> address h' = address h"
  by (auto simp: check_and_forward_def log_io_def put_socket_def split: sum.splits if_splits)

lemma forward_loop_address:
  "forward_loop D h m js = Inr h' \<Longrightarrow> address h' = address h"
proof (induction js arbitrary: h)
  case Nil
  then show ?case by simp
next
  case (Cons j js)
  then show ?case
    by (auto split: sum.splits option.splits dest!: check_and_forward_address)
qed

text \<open>
  C10. For a set-address message that reaches the switch with a device identifier that is
  zero or the configured one, \<open>process_msg\<close> with a null source socket writes through the
  null pointer; \<open>check_serial\<close> passes a null source socket, so it faults whenever its
  forwarding loop completes and \<open>sockets[0]\<close> can be read. With a source socket that exists
  the handler's address and the socket's source address become the new address.
\<close>

theorem set_addr_null_source:
  assumes ver: "msg_version m = HMTL_MSG_VERSION D"
      and forme: "msg_address m = address h \<or> msg_address m = SOCKET_ADDR_ANY D"
      and noack: "msg_flags m AND MSG_FLAG_ACK D = 0 \<or> msg_address m = SOCKET_ADDR_ANY D"
      and ty: "msg_type m = MSG_TYPE_SET_ADDR D"
      and l1: "MSG_TYPE_SET_ADDR D \<noteq> MSG_TYPE_OUTPUT D"
      and l2: "MSG_TYPE_SET_ADDR D \<noteq> MSG_TYPE_POLL D"
      and dev: "sa_device_id (as_set_addr m) = 0 \<or> sa_device_id (as_set_addr m) = device_id config"
  shows "process_msg D L fresh h m None serial_socket config = Inl NullDeref \<and>
         (\<forall>h1. forward_loop D (log_io (Serial_println (HMTL_ACK D)) h) m
                  [0..<unat (num_sockets h)] = Inr h1 \<and> sockets h1 \<noteq> []
            \<longrightarrow> check_serial D L fresh now h (Some m, off) config = Inl NullDeref) \<and>
         (\<forall>i s. get_socket h (Some i) = Inr (i, s)
            \<longrightarrow> process_msg D L fresh h m (Some i) serial_socket config
                = Inr (False, put_socket (h\<lparr>address := sa_address (as_set_addr m)\<rparr>) i
                                (s\<lparr>sourceAddress := sa_address (as_set_addr m)\<rparr>)))"
proof -
  have disp: "\<And>h0 src ss. dispatch_msg D L fresh h0 m src ss config = set_address h0 m src config"
    using ty l1 l2 by (simp add: dispatch_msg_def)
  have proc: "\<And>h0 src ss. address h0 = address h \<Longrightarrow>
      process_msg D L fresh h0 m src ss config = set_address h0 m src config"
    using ver forme noack disp by (auto simp: process_msg_def)
  have null: "\<And>h0. set_address h0 m None config = Inl NullDeref"
    using dev by (auto simp: set_address_def get_socket_def Let_def)
  have a: "process_msg D L fresh h m None serial_socket config = Inl NullDeref"
    using proc[of h None serial_socket] null by simp
  have b: "\<forall>h1. forward_loop D (log_io (Serial_println (HMTL_ACK D)) h) m
                  [0..<unat (num_sockets h)] = Inr h1 \<and> sockets h1 \<noteq> []
            \<longrightarrow> check_serial D L fresh now h (Some m, off) config = Inl NullDeref"
  proof (intro allI impI)
    fix h1
    assume f: "forward_loop D (log_io (Serial_println (HMTL_ACK D)) h) m
                  [0..<unat (num_sockets h)] = Inr h1 \<and> sockets h1 \<noteq> []"
    then have "address h1 = address (log_io (Serial_println (HMTL_ACK D)) h)"
      using forward_loop_address by blast
    then have ad: "address h1 = address h" by (simp add: log_io_def)
    have "\<And>ss. process_msg D L fresh h1 m None ss config = Inl NullDeref"
      using proc[OF ad] null by simp
    then show "check_serial D L fresh now h (Some m, off) config = Inl NullDeref"
      using f by (simp add: check_serial_def array_read_def)
  qed
  have c: "\<forall>i s. get_socket h (Some i) = Inr (i, s)
            \<longrightarrow> process_msg D L fresh h m (Some i) serial_socket config
                = Inr (False, put_socket (h\<lparr>address := sa_address (as_set_addr m)\<rparr>) i
                                (s\<lparr>sourceAddress := sa_address (as_set_addr m)\<rparr>))"
  proof (intro allI impI)
    fix i s
    assume g: "get_socket h (Some i) = Inr (i, s)"
    then have "get_socket (h\<lparr>address := sa_address (as_set_addr m)\<rparr>) (Some i) = Inr (i, s)"
      by (simp add: get_socket_def)
    then have "set_address h m (Some i) config
       = Inr (False, put_socket (h\<lparr>address := sa_address (as_set_addr m)\<rparr>) i
                                (s\<lparr>sourceAddress := sa_address (as_set_addr m)\<rparr>))"
      using dev by (auto simp: set_address_def Let_def)
    then show "process_msg D L fresh h m (Some i) serial_socket config
                = Inr (False, put_socket (h\<lparr>address := sa_address (as_set_addr m)\<rparr>) i
                                (s\<lparr>sourceAddress := sa_address (as_set_addr m)\<rparr>))"
      using proc[of h "Some i" serial_socket] by simp
  qed
  from a b c show ?thesis by blast
qed

theorem set_addr_null_source_witness:
  "msg_version example_set_addr = HMTL_MSG_VERSION example_defs \<and>
   msg_address example_set_addr = SOCKET_ADDR_ANY example_defs \<and>
   msg_type example_set_addr = MSG_TYPE_SET_ADDR example_defs \<and>
   sa_device_id (as_set_addr example_set_addr) = 0 \<and>
   process_msg example_defs example_lib None example_handler example_set_addr None (Some 0)
      example_config = Inl NullDeref \<and>
   check_serial example_defs example_lib None 5 example_handler (Some example_set_addr, 4)
      example_config = Inl NullDeref"
proof -
  have ver: "msg_version example_set_addr = HMTL_MSG_VERSION example_defs"
    by (simp add: example_set_addr_def example_poll_def example_defs_def)
  have any: "msg_address example_set_addr = SOCKET_ADDR_ANY example_defs"
    by (simp add: example_set_addr_def example_poll_def example_defs_def)
  have ty: "msg_type example_set_addr = MSG_TYPE_SET_ADDR example_defs"
    by (simp add: example_set_addr_def example_defs_def)
  have l1: "MSG_TYPE_SET_ADDR example_defs \<noteq> MSG_TYPE_OUTPUT example_defs"
    by (simp add: example_defs_def)
  have l2: "MSG_TYPE_SET_ADDR example_defs \<noteq> MSG_TYPE_POLL example_defs"
    by (simp add: example_defs_def)
  have dev: "sa_device_id (as_set_addr example_set_addr) = 0"
    by (simp add: example_set_addr_def example_poll_def)
  have fl: "\<exists>h1. forward_loop example_defs
               (log_io (Serial_println (HMTL_ACK example_defs)) example_handler)
               example_set_addr [0..<unat (num_sockets example_handler)] = Inr h1 \<and>
             sockets h1 \<noteq> []"
    by (simp add: check_and_forward_def get_socket_def put_socket_def memcpy_def log_io_def
        log_event_def array_read_def upt_2 example_set_addr_def example_poll_def
        example_defs_def example_handler_def example_socket_def)
  note inst = set_addr_null_source[of example_set_addr example_defs example_handler
      example_config example_lib None "Some 0" 5 4, OF ver _ _ ty l1 l2]
  have both: "process_msg example_defs example_lib None example_handler example_set_addr None
        (Some 0) example_config = Inl NullDeref \<and>
      check_serial example_defs example_lib None 5 example_handler (Some example_set_addr, 4)
        example_config = Inl NullDeref"
    using inst any dev fl by blast
  then show ?thesis using ver any ty dev by simp
qed

section \<open>Forwarding an ack to serial\<close>

text \<open>
  C5, as the claim states it, fails: an ack for address 5 that arrives at the node with
  address 3 is not written to serial; \<open>process_msg\<close> returns \<open>false\<close> and leaves the handler
  and the trace of calls as they were.
\<close>

theorem ack_for_other_node_not_echoed:
  "msg_flags (example_poll\<lparr>msg_address := 5, msg_flags := 1\<rparr>) AND MSG_FLAG_ACK example_defs \<noteq> 0 \<and>
   msg_address (example_poll\<lparr>msg_address := 5, msg_flags := 1\<rparr>) \<noteq> SOCKET_ADDR_ANY example_defs \<and>
   msg_address (example_poll\<lparr>msg_address := 5, msg_flags := 1\<rparr>) \<noteq> address example_handler \<and>
   process_msg example_defs example_lib None example_handler
       (example_poll\<lparr>msg_address := 5, msg_flags := 1\<rparr>) (Some 0) (Some 0) example_config
     = Inr (False, example_handler) \<and>
   trace (manager example_handler) = []"
  by (simp add: process_msg_def example_poll_def example_defs_def example_handler_def
      example_manager_def)

text \<open>
  C5, amended. For a message of the supported version with the ack flag whose destination
  is not the broadcast address: when the destination is this node's address the message
  is written to serial with its own bytes and length, and \<open>process_msg\<close> returns \<open>false\<close>
  there unless the type is \<open>MSG_TYPE_SENSOR\<close>, in which case the switch runs after the
  write; when the destination is another address nothing is written and nothing is
  dispatched.
\<close>

theorem ack_to_this_node_echoed:
  assumes ver: "msg_version m = HMTL_MSG_VERSION D"
      and ack: "msg_flags m AND MSG_FLAG_ACK D \<noteq> 0"
      and notany: "msg_address m \<noteq> SOCKET_ADDR_ANY D"
  shows "(msg_address m = address h \<and> msg_type m \<noteq> MSG_TYPE_SENSOR D \<longrightarrow>
            process_msg D L fresh h m src serial_socket config
              = Inr (False, log_io (Serial_write (msg_bytes m) (unat (msg_length m))) h)) \<and>
         (msg_address m = address h \<and> msg_type m = MSG_TYPE_SENSOR D \<longrightarrow>
            process_msg D L fresh h m src serial_socket config
              = dispatch_msg D L fresh (log_io (Serial_write (msg_bytes m) (unat (msg_length m))) h)
                  m src serial_socket config) \<and>
         (msg_address m \<noteq> address h \<longrightarrow>
            process_msg D L fresh h m src serial_socket config = Inr (False, h))"
  using ver ack notany by (simp add: process_msg_def Let_def)

theorem ack_to_this_node_echoed_witness:
  "msg_version (example_poll\<lparr>msg_address := 3, msg_flags := 1\<rparr>) = HMTL_MSG_VERSION example_defs \<and>
   msg_flags (example_poll\<lparr>msg_address := 3, msg_flags := 1\<rparr>) AND MSG_FLAG_ACK example_defs \<noteq> 0 \<and>
   msg_address (example_poll\<lparr>msg_address := 3, msg_flags := 1\<rparr>) \<noteq> SOCKET_ADDR_ANY example_defs \<and>
   msg_address (example_poll\<lparr>msg_address := 3, msg_flags := 1\<rparr>) = address example_handler \<and>
   msg_type (example_poll\<lparr>msg_address := 3, msg_flags := 1\<rparr>) \<noteq> MSG_TYPE_SENSOR example_defs \<and>
   process_msg example_defs example_lib None example_handler
       (example_poll\<lparr>msg_address := 3, msg_flags := 1\<rparr>) (Some 0) (Some 0) example_config
     = Inr (False, log_io (Serial_write [2, 255, 255, 2] 4) example_handler)"
proof -
  let ?m = "example_poll\<lparr>msg_address := 3, msg_flags := 1\<rparr>"
  have ver: "msg_version ?m = HMTL_MSG_VERSION example_defs"
    by (simp add: example_poll_def example_defs_def)
  have ack: "msg_flags ?m AND MSG_FLAG_ACK example_defs \<noteq> 0"
    by (simp add: example_defs_def)
  have notany: "msg_address ?m \<noteq> SOCKET_ADDR_ANY example_defs"
    by (simp add: example_defs_def)
  have own: "msg_address ?m = address example_handler"
    by (simp add: example_handler_def)
  have ty: "msg_type ?m \<noteq> MSG_TYPE_SENSOR example_defs"
    by (simp add: example_poll_def example_defs_def)
  have bytes: "msg_bytes ?m = [2, 255, 255, 2] \<and> unat (msg_length ?m) = 4"
    by (simp add: example_poll_def)
  show ?thesis
    using ver ack notany own ty bytes
      ack_to_this_node_echoed[OF ver ack notany, of example_handler example_lib None "Some 0"
        "Some 0" example_config]
    by simp
qed

section \<open>The calls a message causes\<close>

lemma sends_on_simps [simp]:
  "sends_on j [] = 0"
  "sends_on j (es @ es') = sends_on j es + sends_on j es'"
  "sends_on j (Send_msg i a buf n # es) = (if i = j then 1 else 0) + sends_on j es"
  "sends_on j (Setup_call k msg i # es) = sends_on j es"
  "sends_on j (Program_call k out obj tr # es) = sends_on j es"
  "sends_on j (Free_state i # es) = sends_on j es"
  "sends_on j (Free_tracker i # es) = sends_on j es"
  "sends_on j (Serial_write buf n # es) = sends_on j es"
  "sends_on j (Serial_println str # es) = sends_on j es"
  "sends_on j (Delay_ms d # es) = sends_on j es"
  by (simp_all add: sends_on_def is_send_def)

lemma released_no_send: "sends_on j (released pm i) = 0"
  by (simp add: released_def split: option.splits)

lemma handle_msg_trace:
  assumes "handle_msg D fresh pm msg = Inr (r, pm')"
  shows "\<exists>es. trace pm' = trace pm @ es \<and> sends_on j es = 0"
  using assms
  by (auto simp: handle_msg_def array_read_def free_tracker_eq released_no_send log_event_def
      Let_def split: sum.splits option.splits if_splits)

lemma run_program_trace:
  assumes "run_program pm ty arg = Inr (r, pm')"
  shows "\<exists>es. trace pm' = trace pm @ es \<and> sends_on j es = 0"
  using assms
  by (auto simp: run_program_def log_event_def split: sum.splits option.splits prod.splits)

lemma run_sensors_trace:
  "run_sensors D pm xs = Inr pm' \<Longrightarrow> \<exists>es. trace pm' = trace pm @ es \<and> sends_on j es = 0"
proof (induction xs arbitrary: pm)
  case Nil
  then show ?case by simp
next
  case (Cons x xs)
  from Cons.prems obtain r pm1 where
    r1: "run_program pm (PROGRAM_SENSOR_DATA D) x = Inr (r, pm1)" and
    r2: "run_sensors D pm1 xs = Inr pm'"
    by (auto split: sum.splits)
  from run_program_trace[OF r1, of j] obtain es1 where
    "trace pm1 = trace pm @ es1" "sends_on j es1 = 0" by blast
  moreover from Cons.IH[OF r2] obtain es2 where
    "trace pm' = trace pm1 @ es2" "sends_on j es2 = 0" by blast
  ultimately have "trace pm' = trace pm @ (es1 @ es2) \<and> sends_on j (es1 @ es2) = 0" by simp
  then show ?case by blast
qed

lemma poll_response_trace:
  assumes "poll_response D L h m src ss config = Inr (r, h')" and "src \<noteq> Some j"
  shows "\<exists>es. trace (manager h') = trace (manager h) @ es \<and> sends_on j es = 0"
  using assms
  by (auto simp: poll_response_def log_io_def log_event_def put_socket_def Let_def
      split: sum.splits option.splits prod.splits if_splits)

lemma set_address_trace:
  assumes "set_address h m src config = Inr (r, h')"
  shows "trace (manager h') = trace (manager h)"
  using assms
  by (auto simp: set_address_def put_socket_def Let_def split: sum.splits if_splits)

lemma dispatch_msg_trace:
  assumes d: "dispatch_msg D L fresh h m src ss config = Inr (r, h')" and s: "src \<noteq> Some j"
  shows "\<exists>es. trace (manager h') = trace (manager h) @ es \<and> sends_on j es = 0"
proof -
  consider
      (prog) "msg_type m = MSG_TYPE_OUTPUT D" "hdr_type (hdr (as_program m)) = HMTL_OUTPUT_PROGRAM D"
    | (outp) "msg_type m = MSG_TYPE_OUTPUT D" "hdr_type (hdr (as_program m)) \<noteq> HMTL_OUTPUT_PROGRAM D"
    | (poll) "msg_type m \<noteq> MSG_TYPE_OUTPUT D" "msg_type m = MSG_TYPE_POLL D"
    | (addr) "msg_type m \<noteq> MSG_TYPE_OUTPUT D" "msg_type m \<noteq> MSG_TYPE_POLL D"
             "msg_type m = MSG_TYPE_SET_ADDR D"
    | (sens) "msg_type m \<noteq> MSG_TYPE_OUTPUT D" "msg_type m \<noteq> MSG_TYPE_POLL D"
             "msg_type m \<noteq> MSG_TYPE_SET_ADDR D" "msg_type m = MSG_TYPE_SENSOR D"
    | (none) "msg_type m \<noteq> MSG_TYPE_OUTPUT D" "msg_type m \<noteq> MSG_TYPE_POLL D"
             "msg_type m \<noteq> MSG_TYPE_SET_ADDR D" "msg_type m \<noteq> MSG_TYPE_SENSOR D"
    by blast
  then show ?thesis
  proof cases
    case prog
    with d obtain r' pm' where hm: "handle_msg D fresh (manager h) (as_program m) = Inr (r', pm')"
      and h': "h' = h\<lparr>manager := pm'\<rparr>"
      by (auto simp: dispatch_msg_def split: sum.splits)
    from handle_msg_trace[OF hm, of j] show ?thesis by (simp add: h')
  next
    case outp
    with d have "trace (manager h') = trace (manager h) @ []"
      by (auto simp: dispatch_msg_def split: prod.splits)
    then show ?thesis by (intro exI[of _ "[]"]) simp
  next
    case poll
    with d have "poll_response D L h m src ss config = Inr (r, h')"
      by (simp add: dispatch_msg_def)
    from poll_response_trace[OF this s] show ?thesis .
  next
    case addr
    with d have "set_address h m src config = Inr (r, h')" by (simp add: dispatch_msg_def)
    from set_address_trace[OF this] show ?thesis by (intro exI[of _ "[]"]) simp
  next
    case sens
    show ?thesis
    proof (cases "msg_flags m AND MSG_FLAG_ACK D \<noteq> 0")
      case True
      with sens d obtain pm' where rs: "run_sensors D (manager h) (sensor_data m) = Inr pm'"
        and h': "h' = h\<lparr>manager := pm'\<rparr>"
        by (auto simp: dispatch_msg_def split: sum.splits)
      from run_sensors_trace[OF rs, of j] show ?thesis by (simp add: h')
    next
      case False
      with sens d have "h' = h" by (auto simp: dispatch_msg_def)
      then show ?thesis by (intro exI[of _ "[]"]) simp
    qed
  next
    case none
    with d have "h' = h" by (auto simp: dispatch_msg_def)
    then show ?thesis by (intro exI[of _ "[]"]) simp
  qed
qed

lemma process_msg_trace:
  assumes p: "process_msg D L fresh h m src ss config = Inr (r, h')" and s: "src \<noteq> Some j"
  shows "\<exists>es. trace (manager h') = trace (manager h) @ es \<and> sends_on j es = 0"
proof -
  let ?h1 = "log_io (Serial_write (msg_bytes m) (unat (msg_length m))) h"
  have t1: "trace (manager ?h1) = trace (manager h) @ [Serial_write (msg_bytes m) (unat (msg_length m))]"
    by (simp add: log_io_def log_event_def)
  from p consider (same) "h' = h" | (echo) "h' = ?h1"
    | (disp) "dispatch_msg D L fresh h m src ss config = Inr (r, h')"
    | (both) "dispatch_msg D L fresh ?h1 m src ss config = Inr (r, h')"
    by (auto simp: process_msg_def Let_def split: if_splits)
  then show ?thesis
  proof cases
    case same
    then show ?thesis by (intro exI[of _ "[]"]) simp
  next
    case echo
    then show ?thesis using t1 by (intro exI[of _ "[Serial_write (msg_bytes m) (unat (msg_length m))]"]) simp
  next
    case disp
    from dispatch_msg_trace[OF this s] show ?thesis .
  next
    case both
    from dispatch_msg_trace[OF this s] obtain es where
      "trace (manager h') = trace (manager ?h1) @ es" "sends_on j es = 0" by blast
    then have "trace (manager h')
        = trace (manager h) @ (Serial_write (msg_bytes m) (unat (msg_length m)) # es) \<and>
        sends_on j (Serial_write (msg_bytes m) (unat (msg_length m)) # es) = 0"
      using t1 by simp
    then show ?thesis by blast
  qed
qed

lemma is_delay_simps [simp]:
  "is_delay (Delay_ms d)"
  "\<not> is_delay (Send_msg i a buf n)"
  "\<not> is_delay (Setup_call k msg i)"
  "\<not> is_delay (Program_call k out obj tr)"
  "\<not> is_delay (Free_state i)"
  "\<not> is_delay (Free_tracker i)"
  "\<not> is_delay (Serial_write buf n)"
  "\<not> is_delay (Serial_println str)"
  by (simp_all add: is_delay_def)

lemma released_no_delay: "filter is_delay (released pm i) = []"
  by (simp add: released_def split: option.splits)

lemma handle_msg_no_delay:
  assumes "handle_msg D fresh pm msg = Inr (r, pm')"
  shows "\<exists>es. trace pm' = trace pm @ es \<and> filter is_delay es = []"
  using assms
  by (auto simp: handle_msg_def array_read_def free_tracker_eq released_no_delay log_event_def
      Let_def split: sum.splits option.splits if_splits)

lemma run_program_no_delay:
  assumes "run_program pm ty arg = Inr (r, pm')"
  shows "\<exists>es. trace pm' = trace pm @ es \<and> filter is_delay es = []"
  using assms
  by (auto simp: run_program_def log_event_def split: sum.splits option.splits prod.splits)

lemma run_sensors_no_delay:
  "run_sensors D pm xs = Inr pm' \<Longrightarrow> \<exists>es. trace pm' = trace pm @ es \<and> filter is_delay es = []"
proof (induction xs arbitrary: pm)
  case Nil
  then show ?case by simp
next
  case (Cons x xs)
  from Cons.prems obtain r pm1 where
    r1: "run_program pm (PROGRAM_SENSOR_DATA D) x = Inr (r, pm1)" and
    r2: "run_sensors D pm1 xs = Inr pm'"
    by (auto split: sum.splits)
  from run_program_no_delay[OF r1] obtain es1 where
    "trace pm1 = trace pm @ es1" "filter is_delay es1 = []" by blast
  moreover from Cons.IH[OF r2] obtain es2 where
    "trace pm' = trace pm1 @ es2" "filter is_delay es2 = []" by blast
  ultimately have "trace pm' = trace pm @ (es1 @ es2) \<and> filter is_delay (es1 @ es2) = []"
    by simp
  then show ?case by blast
qed

lemma poll_response_no_delay:
  assumes "poll_response D L h m src ss config = Inr (r, h')"
      and "src = None \<or> msg_address m \<noteq> SOCKET_ADDR_ANY D"
  shows "\<exists>es. trace (manager h') = trace (manager h) @ es \<and> filter is_delay es = []"
  using assms
  by (auto simp: poll_response_def log_io_def log_event_def put_socket_def Let_def
      split: sum.splits option.splits prod.splits if_splits)

lemma dispatch_msg_no_delay:
  assumes d: "dispatch_msg D L fresh h m src ss config = Inr (r, h')"
      and s: "src = None \<or> msg_address m \<noteq> SOCKET_ADDR_ANY D"
  shows "\<exists>es. trace (manager h') = trace (manager h) @ es \<and> filter is_delay es = []"
proof -
  consider
      (prog) "msg_type m = MSG_TYPE_OUTPUT D" "hdr_type (hdr (as_program m)) = HMTL_OUTPUT_PROGRAM D"
    | (outp) "msg_type m = MSG_TYPE_OUTPUT D" "hdr_type (hdr (as_program m)) \<noteq> HMTL_OUTPUT_PROGRAM D"
    | (poll) "msg_type m \<noteq> MSG_TYPE_OUTPUT D" "msg_type m = MSG_TYPE_POLL D"
    | (addr) "msg_type m \<noteq> MSG_TYPE_OUTPUT D" "msg_type m \<noteq> MSG_TYPE_POLL D"
             "msg_type m = MSG_TYPE_SET_ADDR D"
    | (sens) "msg_type m \<noteq> MSG_TYPE_OUTPUT D" "msg_type m \<noteq> MSG_TYPE_POLL D"
             "msg_type m \<noteq> MSG_TYPE_SET_ADDR D" "msg_type m = MSG_TYPE_SENSOR D"
    | (none) "msg_type m \<noteq> MSG_TYPE_OUTPUT D" "msg_type m \<noteq> MSG_TYPE_POLL D"
             "msg_type m \<noteq> MSG_TYPE_SET_ADDR D" "msg_type m \<noteq> MSG_TYPE_SENSOR D"
    by blast
  then show ?thesis
  proof cases
    case prog
    with d obtain r' pm' where hm: "handle_msg D fresh (manager h) (as_program m) = Inr (r', pm')"
      and h': "h' = h\<lparr>manager := pm'\<rparr>"
      by (auto simp: dispatch_msg_def split: sum.splits)
    from handle_msg_no_delay[OF hm] show ?thesis by (simp add: h')
  next
    case outp
    with d have "trace (manager h') = trace (manager h) @ []"
      by (auto simp: dispatch_msg_def split: prod.splits)
    then show ?thesis by (intro exI[of _ "[]"]) simp
  next
    case poll
    with d have "poll_response D L h m src ss config = Inr (r, h')"
      by (simp add: dispatch_msg_def)
    from poll_response_no_delay[OF this s] show ?thesis .
  next
    case addr
    with d have "set_address h m src config = Inr (r, h')" by (simp add: dispatch_msg_def)
    from set_address_trace[OF this] show ?thesis by (intro exI[of _ "[]"]) simp
  next
    case sens
    show ?thesis
    proof (cases "msg_flags m AND MSG_FLAG_ACK D \<noteq> 0")
      case True
      with sens d obtain pm' where rs: "run_sensors D (manager h) (sensor_data m) = Inr pm'"
        and h': "h' = h\<lparr>manager := pm'\<rparr>"
        by (auto simp: dispatch_msg_def split: sum.splits)
      from run_sensors_no_delay[OF rs] show ?thesis by (simp add: h')
    next
      case False
      with sens d have "h' = h" by (auto simp: dispatch_msg_def)
      then show ?thesis by (intro exI[of _ "[]"]) simp
    qed
  next
    case none
    with d have "h' = h" by (auto simp: dispatch_msg_def)
    then show ?thesis by (intro exI[of _ "[]"]) simp
  qed
qed

lemma process_msg_no_delay:
  assumes p: "process_msg D L fresh h m src ss config = Inr (r, h')"
      and s: "src = None \<or> msg_address m \<noteq> SOCKET_ADDR_ANY D"
  shows "filter is_delay (new_events (manager h) (manager h')) = []"
proof -
  let ?e = "Serial_write (msg_bytes m) (unat (msg_length m))"
  let ?h1 = "log_io ?e h"
  have t1: "trace (manager ?h1) = trace (manager h) @ [?e]"
    by (simp add: log_io_def log_event_def)
  from p consider (same) "h' = h" | (echo) "h' = ?h1"
    | (disp) "dispatch_msg D L fresh h m src ss config = Inr (r, h')"
    | (both) "dispatch_msg D L fresh ?h1 m src ss config = Inr (r, h')"
    by (auto simp: process_msg_def Let_def split: if_splits)
  then show ?thesis
  proof cases
    case same
    then show ?thesis by (simp add: new_events_def)
  next
    case echo
    then show ?thesis using t1 by (simp add: new_events_def)
  next
    case disp
    from dispatch_msg_no_delay[OF this s] obtain es where
      "trace (manager h') = trace (manager h) @ es" "filter is_delay es = []" by blast
    then show ?thesis by (simp add: new_events_def)
  next
    case both
    from dispatch_msg_no_delay[OF this s] obtain es where
      "trace (manager h') = trace (manager ?h1) @ es" "filter is_delay es = []" by blast
    then show ?thesis using t1 by (simp add: new_events_def)
  qed
qed

section \<open>The delay before a poll response\<close>

lemma c_int_small:
  assumes "0 \<le> x" and "x < 2 ^ (w - 1)"
  shows "c_int w x = x"
proof -
  have "(2::int) ^ (w - 1) \<le> 2 ^ w" by (rule power_increasing) auto
  with assms have "x < 2 ^ w" by linarith
  with assms have "x mod 2 ^ w = x" by (intro mod_pos_pos_trivial) auto
  with assms show ?thesis by (simp add: c_int_def)
qed

lemma delay_arg_small:
  assumes "2 * unat a < 2 ^ (INT_BITS D - 1)"
  shows "unat (delay_arg D a) = 2 * unat a"
proof -
  have x: "uint a * 2 = int (2 * unat a)" by simp
  have "int (2 * unat a) < 2 ^ (INT_BITS D - 1)"
    using assms by (metis of_nat_less_iff of_nat_numeral of_nat_power)
  then have "delayMs D a = int (2 * unat a)"
    unfolding delayMs_def x by (intro c_int_small) auto
  then have "delay_arg D a = word_of_nat (2 * unat a)" by (simp add: delay_arg_def)
  moreover have "2 * unat a < 2 ^ 32"
  proof -
    have "unat a < 2 ^ 16" using unsigned_less[of a] by simp
    then show ?thesis by simp
  qed
  ultimately show ?thesis by (simp add: unat_of_nat take_bit_eq_mod del: of_nat_mult)
qed

lemma delay_arg_mono:
  assumes lt: "a1 < a2" and fits: "2 * unat a2 < 2 ^ (INT_BITS D - 1)"
  shows "delay_arg D a1 \<le> delay_arg D a2"
proof -
  have u: "unat a1 < unat a2" using lt by (simp add: word_less_nat_alt)
  then have "2 * unat a1 < 2 ^ (INT_BITS D - 1)" using fits by simp
  then have "unat (delay_arg D a1) = 2 * unat a1" by (rule delay_arg_small)
  moreover have "unat (delay_arg D a2) = 2 * unat a2" using fits by (rule delay_arg_small)
  ultimately show ?thesis using u by (simp add: word_le_nat_alt)
qed

lemma dispatch_poll:
  assumes ty: "msg_type m = MSG_TYPE_POLL D" and l1: "MSG_TYPE_POLL D \<noteq> MSG_TYPE_OUTPUT D"
  shows "dispatch_msg D L fresh h m src ss config = poll_response D L h m src ss config"
  using ty l1 by (simp add: dispatch_msg_def)

text \<open>The three ways a poll that reaches the switch is answered.\<close>

lemma poll_answers:
  assumes ver: "msg_version m = HMTL_MSG_VERSION D"
      and ty: "msg_type m = MSG_TYPE_POLL D"
      and l1: "MSG_TYPE_POLL D \<noteq> MSG_TYPE_OUTPUT D"
      and sock: "get_socket h (Some i) = Inr (i, s)"
      and fmt: "hmtl_poll_fmt L (send_buffer s) (send_data_size s) sa (msg_flags m)
                  (OBJECT_TYPE D) config (outputs (manager h)) (recvLimit s) = (buf, len)"
  shows "(msg_address m = SOCKET_ADDR_ANY D \<and> sa = sourceFromData L s m \<longrightarrow>
            process_msg D L fresh h m (Some i) serial_socket config
              = Inr (False,
                  log_io (Send_msg i sa buf (unat len))
                    (log_io (Delay_ms (delay_arg D (address h)))
                       (put_socket h i (s\<lparr>send_buffer := buf\<rparr>))))) \<and>
         (msg_address m = address h \<and> msg_address m \<noteq> SOCKET_ADDR_ANY D \<and>
          msg_flags m AND MSG_FLAG_ACK D = 0 \<and> sa = sourceFromData L s m \<longrightarrow>
            process_msg D L fresh h m (Some i) serial_socket config
              = Inr (False,
                  log_io (Send_msg i sa buf (unat len))
                    (put_socket h i (s\<lparr>send_buffer := buf\<rparr>)))) \<and>
         ((msg_address m = SOCKET_ADDR_ANY D \<or>
           (msg_address m = address h \<and> msg_flags m AND MSG_FLAG_ACK D = 0)) \<and> sa = 0 \<longrightarrow>
            process_msg D L fresh h m None (Some i) config
              = Inr (False,
                  log_io (Serial_write buf (unat len))
                    (put_socket h i (s\<lparr>send_buffer := buf\<rparr>))))"
proof -
  have a: "msg_address m = SOCKET_ADDR_ANY D \<and> sa = sourceFromData L s m \<longrightarrow>
            process_msg D L fresh h m (Some i) serial_socket config
              = Inr (False,
                  log_io (Send_msg i sa buf (unat len))
                    (log_io (Delay_ms (delay_arg D (address h)))
                       (put_socket h i (s\<lparr>send_buffer := buf\<rparr>))))"
    using ver sock fmt
    by (auto simp: process_msg_def dispatch_poll[OF ty l1] poll_response_def Let_def
        put_socket_def)
  have b: "msg_address m = address h \<and> msg_address m \<noteq> SOCKET_ADDR_ANY D \<and>
          msg_flags m AND MSG_FLAG_ACK D = 0 \<and> sa = sourceFromData L s m \<longrightarrow>
            process_msg D L fresh h m (Some i) serial_socket config
              = Inr (False,
                  log_io (Send_msg i sa buf (unat len))
                    (put_socket h i (s\<lparr>send_buffer := buf\<rparr>)))"
    using ver sock fmt
    by (auto simp: process_msg_def dispatch_poll[OF ty l1] poll_response_def Let_def)
  have c: "(msg_address m = SOCKET_ADDR_ANY D \<or>
           (msg_address m = address h \<and> msg_flags m AND MSG_FLAG_ACK D = 0)) \<and> sa = 0 \<longrightarrow>
            process_msg D L fresh h m None (Some i) config
              = Inr (False,
                  log_io (Serial_write buf (unat len))
                    (put_socket h i (s\<lparr>send_buffer := buf\<rparr>)))"
    using ver sock fmt
    by (auto simp: process_msg_def dispatch_poll[OF ty l1] poll_response_def Let_def)
  from b c have "(msg_address m = address h \<and> msg_address m \<noteq> SOCKET_ADDR_ANY D \<and>
          msg_flags m AND MSG_FLAG_ACK D = 0 \<and> sa = sourceFromData L s m \<longrightarrow>
            process_msg D L fresh h m (Some i) serial_socket config
              = Inr (False,
                  log_io (Send_msg i sa buf (unat len))
                    (put_socket h i (s\<lparr>send_buffer := buf\<rparr>)))) \<and>
         ((msg_address m = SOCKET_ADDR_ANY D \<or>
           (msg_address m = address h \<and> msg_flags m AND MSG_FLAG_ACK D = 0)) \<and> sa = 0 \<longrightarrow>
            process_msg D L fresh h m None (Some i) config
              = Inr (False,
                  log_io (Serial_write buf (unat len))
                    (put_socket h i (s\<lparr>send_buffer := buf\<rparr>))))"
    by (rule conjI)
  with a show ?thesis by (rule conjI)
qed

text \<open>
  C8, amended. A poll of the supported version that is received on a socket that exists
  with the broadcast destination is answered by \<open>delay\<close> with the value of \<open>address * 2\<close>
  and then \<open>sendMsgTo\<close>. No message received over serial, and no message whose
  destination is not the broadcast address, causes a call of \<open>delay\<close>, whatever its
  version, type and flags: a poll of the supported version for this node's address
  without the ack flag is answered on its socket by \<open>sendMsgTo\<close> alone, and a poll of the
  supported version received over serial, broadcast or for this node's address without
  the ack flag, is answered by \<open>Serial.write\<close> alone. Where \<open>address * 2\<close> fits the
  platform's \<open>int\<close> the delay is twice the address, and of two addresses in that range the
  lower one does not wait longer.
\<close>

theorem broadcast_poll_delay:
  "(msg_version m = HMTL_MSG_VERSION D \<and> msg_type m = MSG_TYPE_POLL D \<and>
    MSG_TYPE_POLL D \<noteq> MSG_TYPE_OUTPUT D \<and> get_socket h (Some i) = Inr (i, s) \<and>
    hmtl_poll_fmt L (send_buffer s) (send_data_size s) sa (msg_flags m)
      (OBJECT_TYPE D) config (outputs (manager h)) (recvLimit s) = (buf, len) \<longrightarrow>
      (msg_address m = SOCKET_ADDR_ANY D \<and> sa = sourceFromData L s m \<longrightarrow>
         process_msg D L fresh h m (Some i) serial_socket config
           = Inr (False,
               log_io (Send_msg i sa buf (unat len))
                 (log_io (Delay_ms (delay_arg D (address h)))
                    (put_socket h i (s\<lparr>send_buffer := buf\<rparr>))))) \<and>
      (msg_address m = address h \<and> msg_address m \<noteq> SOCKET_ADDR_ANY D \<and>
       msg_flags m AND MSG_FLAG_ACK D = 0 \<and> sa = sourceFromData L s m \<longrightarrow>
         process_msg D L fresh h m (Some i) serial_socket config
           = Inr (False,
               log_io (Send_msg i sa buf (unat len))
                 (put_socket h i (s\<lparr>send_buffer := buf\<rparr>)))) \<and>
      ((msg_address m = SOCKET_ADDR_ANY D \<or>
        (msg_address m = address h \<and> msg_flags m AND MSG_FLAG_ACK D = 0)) \<and> sa = 0 \<longrightarrow>
         process_msg D L fresh h m None (Some i) config
           = Inr (False,
               log_io (Serial_write buf (unat len))
                 (put_socket h i (s\<lparr>send_buffer := buf\<rparr>))))) \<and>
   ((src = None \<or> msg_address m' \<noteq> SOCKET_ADDR_ANY D) \<and>
    process_msg D L fresh h m' src ss config = Inr (r, h') \<longrightarrow>
      filter is_delay (new_events (manager h) (manager h')) = []) \<and>
   (2 * unat a < 2 ^ (INT_BITS D - 1) \<longrightarrow> unat (delay_arg D a) = 2 * unat a) \<and>
   (a1 < a2 \<and> 2 * unat a2 < 2 ^ (INT_BITS D - 1) \<longrightarrow> delay_arg D a1 \<le> delay_arg D a2)"
proof (intro conjI impI)
  assume pre: "msg_version m = HMTL_MSG_VERSION D \<and> msg_type m = MSG_TYPE_POLL D \<and>
    MSG_TYPE_POLL D \<noteq> MSG_TYPE_OUTPUT D \<and> get_socket h (Some i) = Inr (i, s) \<and>
    hmtl_poll_fmt L (send_buffer s) (send_data_size s) sa (msg_flags m)
      (OBJECT_TYPE D) config (outputs (manager h)) (recvLimit s) = (buf, len)"
  then have ver: "msg_version m = HMTL_MSG_VERSION D" and ty: "msg_type m = MSG_TYPE_POLL D"
    and l1: "MSG_TYPE_POLL D \<noteq> MSG_TYPE_OUTPUT D" and sock: "get_socket h (Some i) = Inr (i, s)"
    and fmt: "hmtl_poll_fmt L (send_buffer s) (send_data_size s) sa (msg_flags m)
      (OBJECT_TYPE D) config (outputs (manager h)) (recvLimit s) = (buf, len)"
    by simp_all
  note ans = poll_answers[OF ver ty l1 sock fmt, of fresh serial_socket]
  {
    assume "msg_address m = SOCKET_ADDR_ANY D \<and> sa = sourceFromData L s m"
    with ans show "process_msg D L fresh h m (Some i) serial_socket config
           = Inr (False,
               log_io (Send_msg i sa buf (unat len))
                 (log_io (Delay_ms (delay_arg D (address h)))
                    (put_socket h i (s\<lparr>send_buffer := buf\<rparr>))))"
      by blast
  }
  {
    assume "msg_address m = address h \<and> msg_address m \<noteq> SOCKET_ADDR_ANY D \<and>
       msg_flags m AND MSG_FLAG_ACK D = 0 \<and> sa = sourceFromData L s m"
    with ans show "process_msg D L fresh h m (Some i) serial_socket config
           = Inr (False,
               log_io (Send_msg i sa buf (unat len))
                 (put_socket h i (s\<lparr>send_buffer := buf\<rparr>)))"
      by blast
  }
  {
    assume "(msg_address m = SOCKET_ADDR_ANY D \<or>
        (msg_address m = address h \<and> msg_flags m AND MSG_FLAG_ACK D = 0)) \<and> sa = 0"
    with ans show "process_msg D L fresh h m None (Some i) config
           = Inr (False,
               log_io (Serial_write buf (unat len))
                 (put_socket h i (s\<lparr>send_buffer := buf\<rparr>)))"
      by blast
  }
next
  assume "(src = None \<or> msg_address m' \<noteq> SOCKET_ADDR_ANY D) \<and>
    process_msg D L fresh h m' src ss config = Inr (r, h')"
  then show "filter is_delay (new_events (manager h) (manager h')) = []"
    using process_msg_no_delay by blast
next
  assume "2 * unat a < 2 ^ (INT_BITS D - 1)"
  then show "unat (delay_arg D a) = 2 * unat a" by (rule delay_arg_small)
next
  assume "a1 < a2 \<and> 2 * unat a2 < 2 ^ (INT_BITS D - 1)"
  then show "delay_arg D a1 \<le> delay_arg D a2" using delay_arg_mono by blast
qed

theorem broadcast_poll_delay_witness:
  "msg_version example_poll = HMTL_MSG_VERSION example_defs \<and>
   msg_type example_poll = MSG_TYPE_POLL example_defs \<and>
   msg_address example_poll = SOCKET_ADDR_ANY example_defs \<and>
   get_socket example_handler (Some 1) = Inr (1, example_socket) \<and>
   2 * unat (address example_handler) < 2 ^ (INT_BITS example_defs - 1) \<and>
   process_msg example_defs example_lib None example_handler example_poll (Some 1) (Some 0)
       example_config
     = Inr (False,
         log_io (Send_msg 1 9 [1, 2, 3, 0, 0, 0] 3)
           (log_io (Delay_ms (delay_arg example_defs 3))
              (put_socket example_handler 1 (example_socket\<lparr>send_buffer := [1, 2, 3, 0, 0, 0]\<rparr>)))) \<and>
   msg_address (example_poll\<lparr>msg_address := 3\<rparr>) = address example_handler \<and>
   process_msg example_defs example_lib None example_handler (example_poll\<lparr>msg_address := 3\<rparr>)
       None (Some 1) example_config
     = Inr (False,
         log_io (Serial_write [1, 2, 3, 0, 0, 0] 3)
           (put_socket example_handler 1 (example_socket\<lparr>send_buffer := [1, 2, 3, 0, 0, 0]\<rparr>))) \<and>
   filter is_delay
     (new_events (manager example_handler)
        (manager (log_io (Serial_write [1, 2, 3, 0, 0, 0] 3)
           (put_socket example_handler 1
              (example_socket\<lparr>send_buffer := [1, 2, 3, 0, 0, 0]\<rparr>))))) = [] \<and>
   unat (delay_arg example_defs 3) = 6 \<and>
   delay_arg example_defs 3 \<le> delay_arg example_defs 4"
proof -
  let ?own = "example_poll\<lparr>msg_address := 3\<rparr>"
  let ?h' = "log_io (Serial_write [1, 2, 3, 0, 0, 0] 3)
           (put_socket example_handler 1 (example_socket\<lparr>send_buffer := [1, 2, 3, 0, 0, 0]\<rparr>))"
  have ver: "msg_version example_poll = HMTL_MSG_VERSION example_defs"
    by (simp add: example_poll_def example_defs_def)
  have ty: "msg_type example_poll = MSG_TYPE_POLL example_defs"
    by (simp add: example_poll_def example_defs_def)
  have l1: "MSG_TYPE_POLL example_defs \<noteq> MSG_TYPE_OUTPUT example_defs"
    by (simp add: example_defs_def)
  have any: "msg_address example_poll = SOCKET_ADDR_ANY example_defs"
    by (simp add: example_poll_def example_defs_def)
  have sock: "get_socket example_handler (Some 1) = Inr (1, example_socket)"
    by (simp add: get_socket_def array_read_def example_handler_def)
  have fmt: "hmtl_poll_fmt example_lib (send_buffer example_socket) (send_data_size example_socket)
       9 (msg_flags example_poll) (OBJECT_TYPE example_defs) example_config
       (outputs (manager example_handler)) (recvLimit example_socket) = ([1, 2, 3, 0, 0, 0], 3)"
    by (simp add: example_lib_def example_socket_def)
  have src: "(9::socket_addr_t) = sourceFromData example_lib example_socket example_poll"
    by (simp add: example_lib_def)
  have ad: "address example_handler = 3" by (simp add: example_handler_def)
  have fits3: "2 * unat (3::socket_addr_t) < 2 ^ (INT_BITS example_defs - 1)"
    by (simp add: example_defs_def)
  have fits4: "(3::socket_addr_t) < 4 \<and> 2 * unat (4::socket_addr_t) < 2 ^ (INT_BITS example_defs - 1)"
    by (simp add: example_defs_def)
  have ver': "msg_version ?own = HMTL_MSG_VERSION example_defs" using ver by simp
  have ty': "msg_type ?own = MSG_TYPE_POLL example_defs" using ty by simp
  have own: "msg_address ?own = address example_handler \<and>
      msg_flags ?own AND MSG_FLAG_ACK example_defs = 0"
    by (simp add: ad example_poll_def)
  have fmt': "hmtl_poll_fmt example_lib (send_buffer example_socket) (send_data_size example_socket)
       0 (msg_flags ?own) (OBJECT_TYPE example_defs) example_config
       (outputs (manager example_handler)) (recvLimit example_socket) = ([1, 2, 3, 0, 0, 0], 3)"
    by (simp add: example_lib_def example_socket_def)
  note inst1 = broadcast_poll_delay[where m = example_poll and D = example_defs
      and h = example_handler and i = 1 and s = example_socket and L = example_lib and sa = 9
      and buf = "[1, 2, 3, 0, 0, 0]" and len = 3 and config = example_config and fresh = None
      and serial_socket = "Some 0" and a = 3 and ?a1.0 = 3 and ?a2.0 = 4]
  have bc: "process_msg example_defs example_lib None example_handler example_poll (Some 1)
       (Some 0) example_config
     = Inr (False,
         log_io (Send_msg 1 9 [1, 2, 3, 0, 0, 0] 3)
           (log_io (Delay_ms (delay_arg example_defs 3))
              (put_socket example_handler 1 (example_socket\<lparr>send_buffer := [1, 2, 3, 0, 0, 0]\<rparr>))))"
    using inst1 ver ty l1 sock fmt any src ad by simp
  have val: "unat (delay_arg example_defs 3) = 6" using inst1 fits3 by simp
  have mono: "delay_arg example_defs 3 \<le> delay_arg example_defs 4" using inst1 fits4 by simp
  note inst2 = broadcast_poll_delay[where m = "?own" and D = example_defs
      and h = example_handler and i = 1 and s = example_socket and L = example_lib and sa = 0
      and buf = "[1, 2, 3, 0, 0, 0]" and len = 3 and config = example_config and fresh = None
      and serial_socket = "Some 0"
      and m' = "?own" and src = None and ss = "Some 1" and r = False and h' = "?h'"]
  have sr: "process_msg example_defs example_lib None example_handler ?own None (Some 1)
       example_config = Inr (False, ?h')"
    using inst2 ver' ty' l1 sock fmt' own by simp
  have nd: "filter is_delay (new_events (manager example_handler) (manager ?h')) = []"
    using inst2 sr by simp
  have fit: "2 * unat (address example_handler) < 2 ^ (INT_BITS example_defs - 1)"
    using fits3 ad by simp
  from ver ty any sock fit bc own sr nd val mono show ?thesis by simp
qed

text \<open>
  C8, as the claim states it, fails: a broadcast poll that arrives over serial is
  forwarded and answered with no call of \<open>delay\<close>. With an \<open>int\<close> of 16 bits the delay is
  also not monotonic: address 16384 waits 4294934528 ms, address 32768 waits 0 ms.
\<close>

theorem broadcast_poll_from_serial_not_delayed:
  "msg_version example_poll = HMTL_MSG_VERSION example_defs \<and>
   msg_type example_poll = MSG_TYPE_POLL example_defs \<and>
   msg_address example_poll = SOCKET_ADDR_ANY example_defs \<and>
   (case check_serial example_defs example_lib None 5 example_handler (Some example_poll, 4)
           example_config of
      Inl f \<Rightarrow> False
    | Inr (r, h') \<Rightarrow>
        trace (manager h')
          = [Serial_println ''ack'', Send_msg 0 65535 [2, 255, 255, 2, 0, 0] 4,
             Send_msg 1 65535 [2, 255, 255, 2, 0, 0] 4, Serial_write [1, 2, 3, 2, 0, 0] 3]) \<and>
   (16384::socket_addr_t) < 32768 \<and>
   delay_arg example_defs 16384 = 4294934528 \<and> delay_arg example_defs 32768 = 0"
  by (simp add: check_serial_def process_msg_def dispatch_msg_def poll_response_def
      check_and_forward_def get_socket_def put_socket_def memcpy_def log_io_def log_event_def
      array_read_def delay_arg_def delayMs_def c_int_def Let_def upt_2
      example_poll_def example_defs_def example_handler_def example_manager_def
      example_socket_def example_lib_def)

section \<open>Forwarding between transports\<close>

lemma is_send_simps [simp]:
  "is_send j (Send_msg i a buf n) = (i = j)"
  "\<not> is_send j (Setup_call k msg i)"
  "\<not> is_send j (Program_call k out obj tr)"
  "\<not> is_send j (Free_state i)"
  "\<not> is_send j (Free_tracker i)"
  "\<not> is_send j (Serial_write buf n)"
  "\<not> is_send j (Serial_println str)"
  "\<not> is_send j (Delay_ms d)"
  by (simp_all add: is_send_def)

lemma sends_on_0: "sends_on j es = 0 \<Longrightarrow> filter (is_send j) es = []"
  by (simp add: sends_on_def)

lemma check_and_forward_cases:
  assumes fwd: "msg_address m \<noteq> address h \<or> msg_address m = SOCKET_ADDR_ANY D"
      and live: "i < length (sockets h)" "sockets h ! i = Some s"
      and ret: "check_and_forward D h m i = Inr (r, h1)"
  shows "(\<not> fits m s \<and> h1 = h) \<or>
         (fits m s \<and>
          h1 = log_io (Send_msg i (msg_address m)
                  (take (unat (msg_length m)) (msg_bytes m)
                     @ drop (unat (msg_length m)) (send_buffer s))
                  (unat (msg_length m)))
                 (put_socket h i
                    (s\<lparr>send_buffer := take (unat (msg_length m)) (msg_bytes m)
                                         @ drop (unat (msg_length m)) (send_buffer s)\<rparr>)))"
proof (cases "fits m s")
  case False
  with assms show ?thesis
    by (simp add: check_and_forward_def get_socket_def array_read_def fits_def)
next
  case True
  show ?thesis
  proof (cases "memcpy (send_buffer s) (msg_bytes m) (unat (msg_length m))")
    case (Inl f)
    with assms True show ?thesis
      by (simp add: check_and_forward_def get_socket_def array_read_def fits_def)
  next
    case (Inr buf)
    then have buf: "buf = take (unat (msg_length m)) (msg_bytes m)
                     @ drop (unat (msg_length m)) (send_buffer s)"
      by (simp add: memcpy_def split: if_splits)
    from assms True Inr have "h1 = log_io (Send_msg i (msg_address m) buf (unat (msg_length m)))
                 (put_socket h i (s\<lparr>send_buffer := buf\<rparr>))"
      by (simp add: check_and_forward_def get_socket_def array_read_def fits_def)
    with True buf show ?thesis by simp
  qed
qed

lemma forward_loop_sends:
  assumes fwd: "msg_address m \<noteq> address h \<or> msg_address m = SOCKET_ADDR_ANY D"
      and dist: "distinct js"
      and ret: "forward_loop D h m js = Inr h'"
  shows "\<exists>es. trace (manager h') = trace (manager h) @ es \<and>
           length (sockets h') = length (sockets h) \<and>
           (\<forall>j s. j < length (sockets h) \<and> sockets h ! j = Some s \<longrightarrow>
              filter (is_send j) es = (if j \<in> set js then forwarded j m s else []))"
  using fwd dist ret
proof (induction js arbitrary: h)
  case Nil
  then show ?case by (intro exI[of _ "[]"]) simp
next
  case (Cons i js)
  from Cons.prems have inot: "i \<notin> set js" and dist': "distinct js" by auto
  from Cons.prems(3) have ilen: "i < length (sockets h)"
    by (auto simp: array_read_def split: if_splits)
  show ?case
  proof (cases "sockets h ! i")
    case None
    with Cons.prems(3) ilen have r: "forward_loop D h m js = Inr h'"
      by (simp add: array_read_def)
    from Cons.IH[OF Cons.prems(1) dist' r] obtain es where
      es: "trace (manager h') = trace (manager h) @ es"
          "length (sockets h') = length (sockets h)"
          "\<forall>j s. j < length (sockets h) \<and> sockets h ! j = Some s \<longrightarrow>
              filter (is_send j) es = (if j \<in> set js then forwarded j m s else [])"
      by blast
    have "\<forall>j s. j < length (sockets h) \<and> sockets h ! j = Some s \<longrightarrow>
              filter (is_send j) es = (if j \<in> set (i # js) then forwarded j m s else [])"
      using es(3) None by auto
    with es(1,2) show ?thesis by blast
  next
    case (Some s)
    with Cons.prems(3) ilen obtain r h1 where
      cf: "check_and_forward D h m i = Inr (r, h1)" and
      r: "forward_loop D h1 m js = Inr h'"
      by (auto simp: array_read_def split: sum.splits)
    have ad: "address h1 = address h" using check_and_forward_address[OF cf] .
    then have fwd1: "msg_address m \<noteq> address h1 \<or> msg_address m = SOCKET_ADDR_ANY D"
      using Cons.prems(1) by simp
    from Cons.IH[OF fwd1 dist' r] obtain es where
      es: "trace (manager h') = trace (manager h1) @ es"
          "length (sockets h') = length (sockets h1)"
          "\<forall>j s. j < length (sockets h1) \<and> sockets h1 ! j = Some s \<longrightarrow>
              filter (is_send j) es = (if j \<in> set js then forwarded j m s else [])"
      by blast
    let ?buf = "take (unat (msg_length m)) (msg_bytes m)
                  @ drop (unat (msg_length m)) (send_buffer s)"
    let ?e = "Send_msg i (msg_address m) ?buf (unat (msg_length m))"
    from check_and_forward_cases[OF Cons.prems(1) ilen Some cf]
    show ?thesis
    proof
      assume a: "\<not> fits m s \<and> h1 = h"
      have "\<forall>j s'. j < length (sockets h) \<and> sockets h ! j = Some s' \<longrightarrow>
              filter (is_send j) es = (if j \<in> set (i # js) then forwarded j m s' else [])"
      proof (intro allI impI)
        fix j s'
        assume js: "j < length (sockets h) \<and> sockets h ! j = Some s'"
        with es(3) a have e: "filter (is_send j) es = (if j \<in> set js then forwarded j m s' else [])"
          by blast
        show "filter (is_send j) es = (if j \<in> set (i # js) then forwarded j m s' else [])"
        proof (cases "j = i")
          case True
          with js Some have "s' = s" by simp
          with a have "forwarded j m s' = []" by (simp add: forwarded_def)
          with e True inot show ?thesis by simp
        next
          case False
          with e show ?thesis by simp
        qed
      qed
      with es(1,2) a show ?thesis by blast
    next
      assume b: "fits m s \<and> h1 = log_io ?e (put_socket h i (s\<lparr>send_buffer := ?buf\<rparr>))"
      then have f: "fits m s" and h1: "h1 = log_io ?e (put_socket h i (s\<lparr>send_buffer := ?buf\<rparr>))"
        by simp_all
      have t1: "trace (manager h1) = trace (manager h) @ [?e]"
        by (simp add: h1 log_io_def log_event_def put_socket_def)
      have s1: "sockets h1 = (sockets h)[i := Some (s\<lparr>send_buffer := ?buf\<rparr>)]"
        by (simp add: h1 log_io_def put_socket_def)
      have tr: "trace (manager h') = trace (manager h) @ (?e # es)" using es(1) t1 by simp
      have len: "length (sockets h') = length (sockets h)" using es(2) s1 by simp
      have cnt: "\<forall>j s'. j < length (sockets h) \<and> sockets h ! j = Some s' \<longrightarrow>
              filter (is_send j) (?e # es) = (if j \<in> set (i # js) then forwarded j m s' else [])"
      proof (intro allI impI)
        fix j s'
        assume js: "j < length (sockets h) \<and> sockets h ! j = Some s'"
        show "filter (is_send j) (?e # es) = (if j \<in> set (i # js) then forwarded j m s' else [])"
        proof (cases "j = i")
          case True
          with js Some have eq: "s' = s" by simp
          have "i < length (sockets h1) \<and> sockets h1 ! i = Some (s\<lparr>send_buffer := ?buf\<rparr>)"
            using s1 ilen by simp
          with es(3) have "filter (is_send i) es
              = (if i \<in> set js then forwarded i m (s\<lparr>send_buffer := ?buf\<rparr>) else [])"
            by blast
          with inot have "filter (is_send i) es = []" by simp
          with True eq f show ?thesis by (simp add: forwarded_def)
        next
          case False
          with js s1 have "j < length (sockets h1) \<and> sockets h1 ! j = Some s'" by simp
          with es(3) have "filter (is_send j) es = (if j \<in> set js then forwarded j m s' else [])"
            by blast
          with False show ?thesis by simp
        qed
      qed
      from tr len cnt show ?thesis by blast
    qed
  qed
qed

lemma check_and_forward_length:
  "check_and_forward D h m i = Inr (r, h') \<Longrightarrow> length (sockets h') = length (sockets h)"
  by (auto simp: check_and_forward_def log_io_def put_socket_def split: sum.splits if_splits)

lemma forward_loop_bounds:
  "forward_loop D h m js = Inr h' \<Longrightarrow> i \<in> set js \<Longrightarrow> i < length (sockets h)"
proof (induction js arbitrary: h)
  case Nil
  then show ?case by simp
next
  case (Cons k js)
  from Cons.prems(1) have klen: "k < length (sockets h)"
    by (auto simp: array_read_def split: if_splits)
  show ?case
  proof (cases "i = k")
    case True
    with klen show ?thesis by simp
  next
    case False
    with Cons.prems(2) have ijs: "i \<in> set js" by simp
    show ?thesis
    proof (cases "sockets h ! k")
      case None
      with Cons.prems(1) klen have "forward_loop D h m js = Inr h'" by (simp add: array_read_def)
      from Cons.IH[OF this ijs] show ?thesis .
    next
      case (Some s)
      with Cons.prems(1) klen obtain r h1 where
        cf: "check_and_forward D h m k = Inr (r, h1)" and
        r: "forward_loop D h1 m js = Inr h'"
        by (auto simp: array_read_def split: sum.splits)
      from Cons.IH[OF r ijs] check_and_forward_length[OF cf] show ?thesis by simp
    qed
  qed
qed

lemma memcpy_ok:
  "n \<le> length dst \<Longrightarrow> n \<le> length src
     \<Longrightarrow> memcpy dst src n = Inr (take n src @ drop n dst)"
  by (simp add: memcpy_def)

lemma check_and_forward_total:
  assumes ilen: "i < length (sockets h)" and live: "sockets h ! i = Some s"
      and buf: "unat (send_data_size s) \<le> length (send_buffer s)"
      and msg: "unat (msg_length m) \<le> length (msg_bytes m)"
  shows "\<exists>r h1. check_and_forward D h m i = Inr (r, h1) \<and>
           length (sockets h1) = length (sockets h) \<and>
           (\<forall>k. k \<noteq> i \<longrightarrow> sockets h1 ! k = sockets h ! k)"
proof (cases "(msg_address m \<noteq> address h \<or> msg_address m = SOCKET_ADDR_ANY D) \<and>
              unat (msg_length m) \<le> unat (send_data_size s)")
  case False
  then have "check_and_forward D h m i = Inr (False, h)"
    using ilen live by (auto simp: check_and_forward_def get_socket_def array_read_def)
  then show ?thesis by (intro exI[of _ False] exI[of _ h]) simp
next
  case True
  then have n: "unat (msg_length m) \<le> length (send_buffer s)" using buf by simp
  let ?buf = "take (unat (msg_length m)) (msg_bytes m)
                  @ drop (unat (msg_length m)) (send_buffer s)"
  have "check_and_forward D h m i
      = Inr (True, log_io (Send_msg i (msg_address m) ?buf (unat (msg_length m)))
                     (put_socket h i (s\<lparr>send_buffer := ?buf\<rparr>)))"
    using True ilen live memcpy_ok[OF n msg]
    by (auto simp: check_and_forward_def get_socket_def array_read_def)
  then show ?thesis
    by (intro exI[of _ True]
          exI[of _ "log_io (Send_msg i (msg_address m) ?buf (unat (msg_length m)))
                     (put_socket h i (s\<lparr>send_buffer := ?buf\<rparr>))"])
       (simp add: log_io_def put_socket_def)
qed

lemma forward_loop_total:
  assumes "distinct js"
      and "unat (msg_length m) \<le> length (msg_bytes m)"
      and "\<forall>i\<in>set js. i < length (sockets h) \<and> buffer_ok (sockets h ! i)"
  shows "\<exists>h'. forward_loop D h m js = Inr h'"
  using assms
proof (induction js arbitrary: h)
  case Nil
  then show ?case by simp
next
  case (Cons i js)
  from Cons.prems have inot: "i \<notin> set js" and dist': "distinct js"
    and ilen: "i < length (sockets h)" and bok: "buffer_ok (sockets h ! i)"
    by auto
  show ?case
  proof (cases "sockets h ! i")
    case None
    have "\<forall>k\<in>set js. k < length (sockets h) \<and> buffer_ok (sockets h ! k)"
      using Cons.prems(3) by simp
    from Cons.IH[OF dist' Cons.prems(2) this] obtain h' where "forward_loop D h m js = Inr h'"
      by blast
    with None ilen show ?thesis by (simp add: array_read_def)
  next
    case (Some s)
    with bok have b: "unat (send_data_size s) \<le> length (send_buffer s)"
      by (simp add: buffer_ok_def)
    from check_and_forward_total[OF ilen Some b Cons.prems(2), of D] obtain r h1 where
      cf: "check_and_forward D h m i = Inr (r, h1)" and
      len: "length (sockets h1) = length (sockets h)" and
      fr: "\<forall>k. k \<noteq> i \<longrightarrow> sockets h1 ! k = sockets h ! k"
      by blast
    have "\<forall>k\<in>set js. k < length (sockets h1) \<and> buffer_ok (sockets h1 ! k)"
      using Cons.prems(3) inot len fr by auto
    from Cons.IH[OF dist' Cons.prems(2) this] obtain h' where "forward_loop D h1 m js = Inr h'"
      by blast
    with Some ilen cf show ?thesis by (simp add: array_read_def)
  qed
qed

text \<open>
  C4, as the claim states it, fails: a broadcast output message received on the socket of
  slot 0 is handled (\<open>check_socket\<close> returns \<open>true\<close>) and no call is made at all, so it is
  not sent on the socket of slot 1.
\<close>

theorem socket_broadcast_not_forwarded:
  "msg_address example_value = SOCKET_ADDR_ANY example_defs \<and>
   sockets example_handler = [Some example_socket, Some example_socket] \<and>
   check_socket example_defs example_lib None example_handler (Some example_value) (Some 0)
       (Some 0) example_config = Inr (True, example_handler) \<and>
   trace (manager example_handler) = []"
  by (simp add: check_socket_def process_msg_def dispatch_msg_def
      example_value_def example_poll_def example_msg_def example_defs_def example_lib_def
      example_handler_def example_manager_def)

lemma serial_forwarding_phase:
  assumes fwd: "msg_address m \<noteq> address h \<or> msg_address m = SOCKET_ADDR_ANY D"
      and j: "j < unat (num_sockets h)"
      and live: "sockets h ! j = Some s"
      and fl: "forward_loop D (log_io (Serial_println (HMTL_ACK D)) h) m
                 [0..<unat (num_sockets h)] = Inr h1"
  shows "\<exists>es. trace (manager h1) = trace (manager h) @ Serial_println (HMTL_ACK D) # es \<and>
           filter (is_send j) es = forwarded j m s"
proof -
  let ?h0 = "log_io (Serial_println (HMTL_ACK D)) h"
  let ?js = "[0..<unat (num_sockets h)]"
  have t0: "trace (manager ?h0) = trace (manager h) @ [Serial_println (HMTL_ACK D)]"
    by (simp add: log_io_def log_event_def)
  have sk0: "sockets ?h0 = sockets h" and a0: "address ?h0 = address h"
    by (simp_all add: log_io_def)
  have jin: "j \<in> set ?js" using j by simp
  have jlen: "j < length (sockets h)" using forward_loop_bounds[OF fl jin] sk0 by simp
  have fwd0: "msg_address m \<noteq> address ?h0 \<or> msg_address m = SOCKET_ADDR_ANY D"
    using fwd a0 by simp
  from forward_loop_sends[OF fwd0 distinct_upt fl] obtain es where
    t1: "trace (manager h1) = trace (manager ?h0) @ es" and
    c1: "\<forall>j s. j < length (sockets ?h0) \<and> sockets ?h0 ! j = Some s \<longrightarrow>
              filter (is_send j) es = (if j \<in> set ?js then forwarded j m s else [])"
    by blast
  have "j < length (sockets ?h0) \<and> sockets ?h0 ! j = Some s"
    using jlen live sk0 by simp
  with c1 have "filter (is_send j) es = (if j \<in> set ?js then forwarded j m s else [])"
    by blast
  with jin have "filter (is_send j) es = forwarded j m s" by simp
  moreover have "trace (manager h1) = trace (manager h) @ Serial_println (HMTL_ACK D) # es"
    using t0 t1 by simp
  ultimately show ?thesis by blast
qed

lemma check_serial_parts:
  assumes ret: "check_serial D L fresh now h (Some m, off) config = Inr (r, h')"
  shows "\<exists>h1 ss h2.
           forward_loop D (log_io (Serial_println (HMTL_ACK D)) h) m
             [0..<unat (num_sockets h)] = Inr h1 \<and>
           process_msg D L fresh h1 m None ss config = Inr (r, h2) \<and>
           h' = h2\<lparr>serial_msg_offset := 0, last_serial_ms := now\<rparr>"
proof (cases "forward_loop D (log_io (Serial_println (HMTL_ACK D)) h) m
                [0..<unat (num_sockets h)]")
  case (Inl f)
  with ret show ?thesis by (simp add: check_serial_def)
next
  case (Inr h1)
  show ?thesis
  proof (cases "array_read (sockets h1) 0")
    case (Inl f)
    with ret Inr show ?thesis by (simp add: check_serial_def)
  next
    case s0: (Inr s0)
    show ?thesis
    proof (cases "process_msg D L fresh h1 m None (if s0 = None then None else Some 0) config")
      case (Inl f)
      with ret Inr s0 show ?thesis by (simp add: check_serial_def)
    next
      case p: (Inr res)
      obtain r2 h2 where res: "res = (r2, h2)" by (cases res)
      with ret Inr s0 p have "r2 = r" and
        "h' = h2\<lparr>serial_msg_offset := 0, last_serial_ms := now\<rparr>"
        by (simp_all add: check_serial_def)
      with Inr p res show ?thesis by blast
    qed
  qed
qed

lemma check_serial_sends:
  assumes fwd: "msg_address m \<noteq> address h \<or> msg_address m = SOCKET_ADDR_ANY D"
      and j: "j < unat (num_sockets h)"
      and live: "sockets h ! j = Some s"
      and ret: "check_serial D L fresh now h (Some m, off) config = Inr (r, h')"
  shows "filter (is_send j) (new_events (manager h) (manager h')) = forwarded j m s \<and>
         (msg_address m = SOCKET_ADDR_ANY D \<and> msg_version m = HMTL_MSG_VERSION D \<longrightarrow>
            (\<exists>h1 ss h2.
               forward_loop D (log_io (Serial_println (HMTL_ACK D)) h) m
                 [0..<unat (num_sockets h)] = Inr h1 \<and>
               dispatch_msg D L fresh h1 m None ss config = Inr (r, h2) \<and>
               h' = h2\<lparr>serial_msg_offset := 0, last_serial_ms := now\<rparr>))"
proof -
  from check_serial_parts[OF ret] obtain h1 ss h2 where
    fl: "forward_loop D (log_io (Serial_println (HMTL_ACK D)) h) m
           [0..<unat (num_sockets h)] = Inr h1" and
    pm: "process_msg D L fresh h1 m None ss config = Inr (r, h2)" and
    h': "h' = h2\<lparr>serial_msg_offset := 0, last_serial_ms := now\<rparr>"
    by blast
  from serial_forwarding_phase[OF fwd j live fl] obtain es1 where
    t1: "trace (manager h1) = trace (manager h) @ Serial_println (HMTL_ACK D) # es1" and
    c1: "filter (is_send j) es1 = forwarded j m s"
    by blast
  have "None \<noteq> Some j" by simp
  from process_msg_trace[OF pm this] obtain es2 where
    t2: "trace (manager h2) = trace (manager h1) @ es2" and c2: "sends_on j es2 = 0"
    by blast
  have "trace (manager h') = trace (manager h) @ (Serial_println (HMTL_ACK D) # es1 @ es2)"
    using t1 t2 by (simp add: h')
  then have ne: "new_events (manager h) (manager h') = Serial_println (HMTL_ACK D) # es1 @ es2"
    by (simp add: new_events_def)
  have a: "filter (is_send j) (new_events (manager h) (manager h')) = forwarded j m s"
    using c1 sends_on_0[OF c2] by (simp add: ne)
  have b: "msg_address m = SOCKET_ADDR_ANY D \<and> msg_version m = HMTL_MSG_VERSION D \<longrightarrow>
            (\<exists>h1 ss h2.
               forward_loop D (log_io (Serial_println (HMTL_ACK D)) h) m
                 [0..<unat (num_sockets h)] = Inr h1 \<and>
               dispatch_msg D L fresh h1 m None ss config = Inr (r, h2) \<and>
               h' = h2\<lparr>serial_msg_offset := 0, last_serial_ms := now\<rparr>)"
  proof
    assume bc: "msg_address m = SOCKET_ADDR_ANY D \<and> msg_version m = HMTL_MSG_VERSION D"
    then have "process_msg D L fresh h1 m None ss config
        = dispatch_msg D L fresh h1 m None ss config"
      by (simp add: process_msg_def)
    with pm have "dispatch_msg D L fresh h1 m None ss config = Inr (r, h2)" by simp
    with fl h' show "\<exists>h1 ss h2.
               forward_loop D (log_io (Serial_println (HMTL_ACK D)) h) m
                 [0..<unat (num_sockets h)] = Inr h1 \<and>
               dispatch_msg D L fresh h1 m None ss config = Inr (r, h2) \<and>
               h' = h2\<lparr>serial_msg_offset := 0, last_serial_ms := now\<rparr>"
      by blast
  qed
  from a b show ?thesis by (rule conjI)
qed

lemma check_socket_sends:
  assumes ne: "i \<noteq> j"
      and cs: "check_socket D L fresh h (Some m) (Some i) ss config = Inr (r, h')"
  shows "filter (is_send j) (new_events (manager h) (manager h')) = []"
proof -
  have "\<exists>r0. process_msg D L fresh h m (Some i) ss config = Inr (r0, h')"
  proof (cases "process_msg D L fresh h m (Some i) ss config")
    case (Inl f)
    with cs show ?thesis by (simp add: check_socket_def)
  next
    case (Inr res)
    obtain r0 h0 where res: "res = (r0, h0)" by (cases res)
    with cs Inr have "h0 = h'" by (cases r0) (simp_all add: check_socket_def)
    with Inr res show ?thesis by simp
  qed
  then obtain r0 where p: "process_msg D L fresh h m (Some i) ss config = Inr (r0, h')"
    by (rule exE)
  from ne have "Some i \<noteq> Some j" by simp
  from process_msg_trace[OF p this] obtain es where
    "trace (manager h') = trace (manager h) @ es" "sends_on j es = 0" by blast
  then show ?thesis using sends_on_0 by (simp add: new_events_def)
qed

lemma can_forward_total:
  assumes cf: "can_forward h m"
  shows "\<exists>h1. forward_loop D (log_io (Serial_println (HMTL_ACK D)) h) m
                 [0..<unat (num_sockets h)] = Inr h1"
proof -
  let ?h0 = "log_io (Serial_println (HMTL_ACK D)) h"
  let ?n = "unat (num_sockets h)"
  from cf have n: "?n \<le> length (sockets h)" and
    msg: "unat (msg_length m) \<le> length (msg_bytes m)" and
    all: "list_all buffer_ok (take ?n (sockets h))"
    by (simp_all add: can_forward_def)
  have sk0: "sockets ?h0 = sockets h" by (simp add: log_io_def)
  have "\<forall>i\<in>set [0..<?n]. i < length (sockets ?h0) \<and> buffer_ok (sockets ?h0 ! i)"
  proof
    fix i
    assume "i \<in> set [0..<?n]"
    then have i: "i < ?n" by simp
    with n have "take ?n (sockets h) ! i = sockets h ! i" by simp
    moreover have "i < length (take ?n (sockets h))" using i n by simp
    ultimately have "buffer_ok (sockets h ! i)"
      using all by (metis list_all_length)
    with i n sk0 show "i < length (sockets ?h0) \<and> buffer_ok (sockets ?h0 ! i)" by simp
  qed
  from forward_loop_total[OF distinct_upt msg this] show ?thesis .
qed

text \<open>
  C4, amended. For a message received over serial whose destination is not this node's
  address or is the broadcast address, and a socket below \<open>num_sockets\<close> that exists: when
  the forwarding loop of \<open>check_serial\<close> completes, and so when \<open>check_serial\<close> returns,
  \<open>sendMsgTo\<close> has been called on that socket exactly once, with the message's destination
  address, a buffer that starts with the message's bytes, and the message's length, if
  the message is no longer than the socket's \<open>send_data_size\<close>, and not at all if it is
  longer; a broadcast message of the supported version has then gone through the switch
  of \<open>process_msg\<close>. The forwarding loop completes whenever the buffers it touches are as
  long as their sizes say, whatever \<open>process_msg\<close> does with the message afterwards. A
  message received on a socket is not sent on any other socket by \<open>check_socket\<close>.
\<close>

theorem serial_message_forwarded_once:
  "((msg_address m \<noteq> address h \<or> msg_address m = SOCKET_ADDR_ANY D) \<and>
    j < unat (num_sockets h) \<and> sockets h ! j = Some s \<longrightarrow>
      (\<forall>h1. forward_loop D (log_io (Serial_println (HMTL_ACK D)) h) m
               [0..<unat (num_sockets h)] = Inr h1 \<longrightarrow>
          filter (is_send j) (new_events (manager h) (manager h1)) = forwarded j m s) \<and>
      (\<forall>r h'. check_serial D L fresh now h (Some m, off) config = Inr (r, h') \<longrightarrow>
          filter (is_send j) (new_events (manager h) (manager h')) = forwarded j m s \<and>
          (msg_address m = SOCKET_ADDR_ANY D \<and> msg_version m = HMTL_MSG_VERSION D \<longrightarrow>
             (\<exists>h1 ss h2.
                forward_loop D (log_io (Serial_println (HMTL_ACK D)) h) m
                  [0..<unat (num_sockets h)] = Inr h1 \<and>
                dispatch_msg D L fresh h1 m None ss config = Inr (r, h2) \<and>
                h' = h2\<lparr>serial_msg_offset := 0, last_serial_ms := now\<rparr>)))) \<and>
   (can_forward h m \<longrightarrow>
      (\<exists>h1. forward_loop D (log_io (Serial_println (HMTL_ACK D)) h) m
               [0..<unat (num_sockets h)] = Inr h1)) \<and>
   (i \<noteq> j \<and> check_socket D L fresh g (Some m') (Some i) ss' config = Inr (r', g') \<longrightarrow>
      filter (is_send j) (new_events (manager g) (manager g')) = [])"
proof (intro conjI impI allI)
  fix h1
  assume pre: "(msg_address m \<noteq> address h \<or> msg_address m = SOCKET_ADDR_ANY D) \<and>
    j < unat (num_sockets h) \<and> sockets h ! j = Some s"
    and fl: "forward_loop D (log_io (Serial_println (HMTL_ACK D)) h) m
               [0..<unat (num_sockets h)] = Inr h1"
  from pre have fwd: "msg_address m \<noteq> address h \<or> msg_address m = SOCKET_ADDR_ANY D"
    and j: "j < unat (num_sockets h)" and live: "sockets h ! j = Some s"
    by simp_all
  from serial_forwarding_phase[OF fwd j live fl] obtain es where
    "trace (manager h1) = trace (manager h) @ Serial_println (HMTL_ACK D) # es"
    "filter (is_send j) es = forwarded j m s"
    by blast
  then show "filter (is_send j) (new_events (manager h) (manager h1)) = forwarded j m s"
    by (simp add: new_events_def)
next
  fix r h'
  assume pre: "(msg_address m \<noteq> address h \<or> msg_address m = SOCKET_ADDR_ANY D) \<and>
    j < unat (num_sockets h) \<and> sockets h ! j = Some s"
    and ret: "check_serial D L fresh now h (Some m, off) config = Inr (r, h')"
  from pre have fwd: "msg_address m \<noteq> address h \<or> msg_address m = SOCKET_ADDR_ANY D"
    and j: "j < unat (num_sockets h)" and live: "sockets h ! j = Some s"
    by simp_all
  from check_serial_sends[OF fwd j live ret]
  show "filter (is_send j) (new_events (manager h) (manager h')) = forwarded j m s"
    by (rule conjunct1)
next
  fix r h'
  assume pre: "(msg_address m \<noteq> address h \<or> msg_address m = SOCKET_ADDR_ANY D) \<and>
    j < unat (num_sockets h) \<and> sockets h ! j = Some s"
    and ret: "check_serial D L fresh now h (Some m, off) config = Inr (r, h')"
    and bc: "msg_address m = SOCKET_ADDR_ANY D \<and> msg_version m = HMTL_MSG_VERSION D"
  from pre have fwd: "msg_address m \<noteq> address h \<or> msg_address m = SOCKET_ADDR_ANY D"
    and j: "j < unat (num_sockets h)" and live: "sockets h ! j = Some s"
    by simp_all
  from check_serial_sends[OF fwd j live ret] bc
  show "\<exists>h1 ss h2.
                forward_loop D (log_io (Serial_println (HMTL_ACK D)) h) m
                  [0..<unat (num_sockets h)] = Inr h1 \<and>
                dispatch_msg D L fresh h1 m None ss config = Inr (r, h2) \<and>
                h' = h2\<lparr>serial_msg_offset := 0, last_serial_ms := now\<rparr>"
    by (rule conjunct2[THEN mp])
next
  assume "can_forward h m"
  then show "\<exists>h1. forward_loop D (log_io (Serial_println (HMTL_ACK D)) h) m
               [0..<unat (num_sockets h)] = Inr h1"
    by (rule can_forward_total)
next
  assume "i \<noteq> j \<and> check_socket D L fresh g (Some m') (Some i) ss' config = Inr (r', g')"
  then have "i \<noteq> j" and "check_socket D L fresh g (Some m') (Some i) ss' config = Inr (r', g')"
    by simp_all
  then show "filter (is_send j) (new_events (manager g) (manager g')) = []"
    by (rule check_socket_sends)
qed

theorem serial_message_forwarded_once_witness:
  "msg_address example_poll = SOCKET_ADDR_ANY example_defs \<and>
   msg_version example_poll = HMTL_MSG_VERSION example_defs \<and>
   1 < unat (num_sockets example_handler) \<and>
   sockets example_handler ! 1 = Some example_socket \<and>
   can_forward example_handler example_poll \<and>
   check_serial example_defs example_lib None 5 example_handler (Some example_poll, 4)
       example_config = Inr (False, example_forwarded) \<and>
   filter (is_send 1) (new_events (manager example_handler) (manager example_forwarded))
     = [Send_msg 1 65535 [2, 255, 255, 2, 0, 0] 4] \<and>
   (\<exists>h1 ss h2.
      forward_loop example_defs (log_io (Serial_println (HMTL_ACK example_defs)) example_handler)
        example_poll [0..<unat (num_sockets example_handler)] = Inr h1 \<and>
      dispatch_msg example_defs example_lib None h1 example_poll None ss example_config
        = Inr (False, h2) \<and>
      example_forwarded = h2\<lparr>serial_msg_offset := 0, last_serial_ms := 5\<rparr>) \<and>
   check_socket example_defs example_lib None example_handler (Some example_value) (Some 0)
       (Some 0) example_config = Inr (True, example_handler) \<and>
   filter (is_send 1) (new_events (manager example_handler) (manager example_handler)) = []"
proof -
  have any: "msg_address example_poll = SOCKET_ADDR_ANY example_defs"
    by (simp add: example_poll_def example_defs_def)
  have ver: "msg_version example_poll = HMTL_MSG_VERSION example_defs"
    by (simp add: example_poll_def example_defs_def)
  have ret: "check_serial example_defs example_lib None 5 example_handler (Some example_poll, 4)
       example_config = Inr (False, example_forwarded)"
    by (simp add: check_serial_def process_msg_def dispatch_msg_def poll_response_def
      check_and_forward_def get_socket_def put_socket_def memcpy_def log_io_def log_event_def
      array_read_def Let_def upt_2 example_forwarded_def
      example_poll_def example_defs_def example_handler_def example_manager_def
      example_socket_def example_lib_def)
  have j: "1 < unat (num_sockets example_handler)" by (simp add: example_handler_def)
  have live: "sockets example_handler ! 1 = Some example_socket"
    by (simp add: example_handler_def)
  have cf: "can_forward example_handler example_poll"
    by (simp add: can_forward_def buffer_ok_def example_handler_def example_poll_def
        example_socket_def)
  have fw: "forwarded 1 example_poll example_socket = [Send_msg 1 65535 [2, 255, 255, 2, 0, 0] 4]"
    by (simp add: forwarded_def fits_def example_poll_def example_socket_def)
  have cs: "check_socket example_defs example_lib None example_handler (Some example_value)
       (Some 0) (Some 0) example_config = Inr (True, example_handler)"
    by (simp add: check_socket_def process_msg_def dispatch_msg_def
      example_value_def example_poll_def example_msg_def example_defs_def example_lib_def
      example_handler_def example_manager_def)
  note inst = serial_message_forwarded_once[where m = example_poll and h = example_handler
      and D = example_defs and j = 1 and s = example_socket and L = example_lib
      and fresh = None and now = 5 and off = 4 and config = example_config
      and i = 0 and g = example_handler and m' = example_value and ss' = "Some 0"
      and r' = True and g' = example_handler]
  from inst any j live ret have
    sent: "filter (is_send 1) (new_events (manager example_handler) (manager example_forwarded))
       = forwarded 1 example_poll example_socket"
    by blast
  from inst any ver j live ret have
    disp: "\<exists>h1 ss h2.
      forward_loop example_defs (log_io (Serial_println (HMTL_ACK example_defs)) example_handler)
        example_poll [0..<unat (num_sockets example_handler)] = Inr h1 \<and>
      dispatch_msg example_defs example_lib None h1 example_poll None ss example_config
        = Inr (False, h2) \<and>
      example_forwarded = h2\<lparr>serial_msg_offset := 0, last_serial_ms := 5\<rparr>"
    by blast
  have "(0::nat) \<noteq> 1" by simp
  with inst cs have
    quiet: "filter (is_send 1) (new_events (manager example_handler) (manager example_handler)) = []"
    by blast
  from any ver j live cf ret sent fw disp cs quiet show ?thesis by simp
qed

end
